theory Spec2Isabelle
  imports Complex_Main "HOL-Library.Sublist" "HOL-Library.Char_ord" "HOL-Library.List_Lexorder"
begin

section \<open>Text primitives of the host language\<close>

text \<open>
  A document is a \<^typ>\<open>string\<close>: the list of its code units, here the code units
  \<open>0..255\<close>. Every operation the section manager uses (\<open>split\<close>, \<open>join\<close>,
  \<open>substring\<close>, \<open>trim\<close>, the regular expressions without the unicode flag) works
  code unit by code unit.
\<close>

definition nl :: char where
  "nl = CHR 0x0A"

text \<open>\<open>content.split('\n')\<close>: never empty, \<open>"".split('\n')\<close> is \<open>[""]\<close>.\<close>

fun split_lines :: "string \<Rightarrow> string list" where
  "split_lines [] = [[]]"
| "split_lines (c # cs) =
     (if c = nl then [] # split_lines cs
      else (case split_lines cs of [] \<Rightarrow> [[c]] | l # ls \<Rightarrow> (c # l) # ls))"

text \<open>\<open>lines.join('\n')\<close>.\<close>

fun join_lines :: "string list \<Rightarrow> string" where
  "join_lines [] = []"
| "join_lines [l] = l"
| "join_lines (l # m # ls) = l @ nl # join_lines (m # ls)"

text \<open>
  \<open>Array.prototype.slice(a, b)\<close>: a negative index counts from the end, both ends are
  clamped to the array.
\<close>

definition js_index :: "nat \<Rightarrow> int \<Rightarrow> nat" where
  "js_index n i = (if i < 0 then nat (max (int n + i) 0) else min (nat i) n)"

definition js_slice :: "'a list \<Rightarrow> int \<Rightarrow> int \<Rightarrow> 'a list" where
  "js_slice xs a b =
     (let i = js_index (length xs) a; j = js_index (length xs) b
      in take (j - i) (drop i xs))"

definition js_slice_from :: "'a list \<Rightarrow> int \<Rightarrow> 'a list" where
  "js_slice_from xs a = drop (js_index (length xs) a) xs"

text \<open>
  The class \<open>\s\<close> and the characters \<open>trim\<close> strips, among the code units \<open>0..255\<close>:
  tab, line feed, vertical tab, form feed, carriage return, space, no-break space.
\<close>

definition is_space :: "char \<Rightarrow> bool" where
  "is_space c = (of_char c \<in> {9, 10, 11, 12, 13, 32, 160 :: nat})"

definition trim :: "string \<Rightarrow> string" where
  "trim s = rev (dropWhile is_space (rev (dropWhile is_space s)))"

text \<open>
  Case-insensitive matching (flag \<open>i\<close>) compares the upper-case forms of the two code
  units; a code unit above 127 is never folded onto one below 128.
\<close>

definition canon :: "char \<Rightarrow> char" where
  "canon c =
     (let n = of_char c :: nat
      in if (97 \<le> n \<and> n \<le> 122) \<or> (224 \<le> n \<and> n \<le> 254 \<and> n \<noteq> 247)
         then char_of (n - 32) else c)"

definition ci_prefix :: "string \<Rightarrow> string \<Rightarrow> bool" where
  "ci_prefix p s = (length p \<le> length s \<and> map canon (take (length p) s) = map canon p)"

text \<open>The length of the match of \<open>/^#+/\<close>; \<open>0\<close> when the line does not match.\<close>

definition hashes :: "string \<Rightarrow> nat" where
  "hashes l = length (takeWhile (\<lambda>c. c = CHR ''#'') l)"

text \<open>
  \<open>/^#{1,6}\s*timing\s*tracking/i\<close>. After fewer \<open>#\<close> than the line starts with, the
  next code unit is another \<open>#\<close>, which neither \<open>\s*\<close> nor \<open>t\<close> accepts; so the
  expression matches exactly when the whole run of \<open>#\<close> has 1 to 6 elements and the rest
  is optional white space, \<open>timing\<close>, optional white space, \<open>tracking\<close>.
\<close>

definition isTimingHeader :: "string \<Rightarrow> bool" where
  "isTimingHeader l =
     (let n = hashes l; r = dropWhile is_space (drop n l)
      in 1 \<le> n \<and> n \<le> 6 \<and> ci_prefix ''timing'' r
         \<and> ci_prefix ''tracking'' (dropWhile is_space (drop 6 r)))"

text \<open>\<open>/^#{2,6}\s*reflection/i\<close>, by the same argument.\<close>

definition isReflectionHeader :: "string \<Rightarrow> bool" where
  "isReflectionHeader l =
     (let n = hashes l
      in 2 \<le> n \<and> n \<le> 6 \<and> ci_prefix ''reflection'' (dropWhile is_space (drop n l)))"

text \<open>
  The loops \<open>for (i = 0; i < lines.length; i++) if (p(lines[i])) {... break}\<close>: the
  index of the first line that satisfies \<open>p\<close>.
\<close>

fun firstIndex :: "('a \<Rightarrow> bool) \<Rightarrow> 'a list \<Rightarrow> nat option" where
  "firstIndex p [] = None"
| "firstIndex p (x # xs) = (if p x then Some 0 else map_option Suc (firstIndex p xs))"

text \<open>A line that ends a section of depth \<open>lvl\<close>: \<open>/^#+/\<close> matches, at most \<open>lvl\<close> long.\<close>

definition closesLevel :: "nat \<Rightarrow> string \<Rightarrow> bool" where
  "closesLevel lvl l = (1 \<le> hashes l \<and> hashes l \<le> lvl)"

text \<open>
  \<open>for (i = from; i < lines.length; i++) if (closes(lines[i])) {end = i; break}\<close> with
  \<open>end\<close> initialised to \<open>lines.length\<close>.
\<close>

definition sectionEnd :: "nat \<Rightarrow> string list \<Rightarrow> nat \<Rightarrow> nat" where
  "sectionEnd lvl lines from =
     (case firstIndex (closesLevel lvl) (drop from lines) of
        None \<Rightarrow> length lines
      | Some k \<Rightarrow> from + k)"

section \<open>The section locator\<close>

record TimingSectionInfo =
  exists :: bool
  startLine :: int
  endLine :: int
  content :: string
  headerLevel :: nat

definition findTimingSection :: "string \<Rightarrow> TimingSectionInfo" where
  "findTimingSection txt =
     (let lines = split_lines txt
      in case firstIndex isTimingHeader lines of
           None \<Rightarrow> \<lparr>exists = False, startLine = -1, endLine = -1, content = [], headerLevel = 0\<rparr>
         | Some s \<Rightarrow>
             (let lvl = (if 1 \<le> hashes (lines ! s) then hashes (lines ! s) else 2);
                  e = sectionEnd lvl lines (s + 1)
              in \<lparr>exists = True, startLine = int s, endLine = int e,
                  content = join_lines (js_slice lines (int s) (int e)),
                  headerLevel = lvl\<rparr>))"

section \<open>Settings and the rendered section\<close>

datatype SectionLocation = Top | Bottom | AfterHeader | Custom

datatype GroupBy = ByApplication | ByCategory | ByBoth

text \<open>
  The setting \<open>afterHeaderName\<close> is spliced, as it is, into the source text of a
  regular expression (\<open>findAfterSpecificHeader\<close>). A name is plain when none of its
  characters is one that the expression syntax reads as an operator; only then does
  the expression look for the name itself.
\<close>

definition plainName :: "string \<Rightarrow> bool" where
  "plainName name = list_all (\<lambda>c. c \<notin> set (CHR 0x5C # ''^$.|?*+()[]{}'')) name"

text \<open>
  The header names of the model are the plain ones. With any other name
  \<open>new RegExp\<close> either builds an expression that matches other lines than those
  holding the name, or throws a \<open>SyntaxError\<close>, which ends the synchronisation
  before anything is written; neither is modelled, and the type keeps such names out
  of the settings.
\<close>

typedef headerName = "{name. plainName name}"
  morphisms nameText HeaderName
  by (rule exI [of _ "[]"]) (simp add: plainName_def)

setup_lifting type_definition_headerName

text \<open>\<open>'Tasks'\<close>, the name that the settings start with.\<close>

lift_definition tasksName :: headerName is "''Tasks''"
  by (simp add: plainName_def)

text \<open>The fields of \<open>TimingPluginSettings\<close> that the section manager reads.\<close>

record Settings =
  timingSectionLocation :: SectionLocation
  afterHeaderName :: "headerName option"
  includeTimeline :: bool
  includeReflection :: bool
  groupBy :: GroupBy

text \<open>
  The four sub-sections rendered from the day's data, each as a function of the
  sub-header prefix \<open>h2\<close>: the results of \<open>generateSummarySection(timingData, h2)\<close>,
  \<open>generateApplicationSection\<close>, \<open>generateCategorySection\<close> and
  \<open>generateTimelineSection\<close> for the \<open>timingData\<close> at hand. The synchroniser only
  concatenates them.
\<close>

record Rendered =
  summarySection :: "string \<Rightarrow> string"
  applicationSection :: "string \<Rightarrow> string"
  categorySection :: "string \<Rightarrow> string"
  timelineSection :: "string \<Rightarrow> string"

text \<open>
  What the four generators return for the day without entries
  (\<open>createEmptyDailyData\<close>): total time \<open>0s\<close>, no most used application, no most
  productive hour, empty maps and an empty timeline.
\<close>

definition emptyDay :: Rendered where
  "emptyDay =
     \<lparr>summarySection = (\<lambda>h2. h2 @ '' Summary'' @ [nl, nl]
          @ ''- **Total tracked time**: 0s'' @ [nl] @ [nl]),
      applicationSection = (\<lambda>h2. h2 @ '' By Application'' @ [nl, nl]
          @ ''*No application data available*'' @ [nl, nl]),
      categorySection = (\<lambda>h2. h2 @ '' By Category'' @ [nl, nl]
          @ ''*No category data available*'' @ [nl, nl]),
      timelineSection = (\<lambda>h2. h2 @ '' Timeline'' @ [nl, nl]
          @ ''*No timeline data available*'' @ [nl, nl])\<rparr>"

definition placeholder :: string where
  "placeholder = ''<!-- Add your daily time usage reflection here -->''"

text \<open>
  \<open>generateReflectionSection\<close>: \<open>if (existingReflection)\<close> is false for \<open>null\<close> and
  for the empty string.
\<close>

definition generateReflectionSection :: "string option \<Rightarrow> string \<Rightarrow> string" where
  "generateReflectionSection existingReflection h2 =
     h2 @ '' Reflection'' @ [nl, nl]
     @ (case existingReflection of
          None \<Rightarrow> placeholder @ [nl, nl]
        | Some r \<Rightarrow> if r = [] then placeholder @ [nl, nl] else r @ [nl, nl])"

definition generateTimingContent ::
  "Settings \<Rightarrow> Rendered \<Rightarrow> string option \<Rightarrow> nat \<Rightarrow> string" where
  "generateTimingContent st rd existingReflection lvl =
     (let h = replicate lvl (CHR ''#''); h2 = replicate (lvl + 1) (CHR ''#'')
      in h @ '' Timing Tracking'' @ [nl, nl]
         @ summarySection rd h2
         @ (if groupBy st = ByApplication \<or> groupBy st = ByBoth
            then applicationSection rd h2 else [])
         @ (if groupBy st = ByCategory \<or> groupBy st = ByBoth
            then categorySection rd h2 else [])
         @ (if includeTimeline st then timelineSection rd h2 else [])
         @ (if includeReflection st then generateReflectionSection existingReflection h2
            else []))"

section \<open>Preserving the reflection\<close>

text \<open>
  \<open>extractReflectionContent\<close>: the lines between the first reflection sub-header and
  the next header that is not deeper, joined and trimmed; \<open>null\<close> when there is no
  sub-header or the trimmed text is empty.
\<close>

definition extractReflectionContent :: "string \<Rightarrow> string option" where
  "extractReflectionContent sectionContent =
     (let lines = split_lines sectionContent
      in case firstIndex isReflectionHeader lines of
           None \<Rightarrow> None
         | Some rs \<Rightarrow>
             (let lvl = (if 1 \<le> hashes (lines ! rs) then hashes (lines ! rs) else 2);
                  re = sectionEnd lvl lines (rs + 1);
                  reflectionText = trim (join_lines (js_slice lines (int rs + 1) (int re)))
              in if reflectionText = [] then None else Some reflectionText))"

section \<open>Placing a new section\<close>

text \<open>\<open>findAfterTitle\<close>: just behind the first line that starts with \<open># \<close>.\<close>

definition findAfterTitle :: "string \<Rightarrow> nat" where
  "findAfterTitle txt =
     (let lines = split_lines txt
      in case firstIndex (\<lambda>l. take 2 l = ''# '') lines of
           None \<Rightarrow> 0
         | Some i \<Rightarrow> length (join_lines (js_slice lines 0 (int i + 1))) + 1)"

text \<open>
  \<open>new RegExp(`^#{1,6}\\s*${headerName}\\s*$`, 'i')\<close> for a plain name, as the
  backtracking matcher runs it: one to six \<open>#\<close>, then white space, then the text of
  the name, then white space up to the end of the line, each of \<open>#{1,6}\<close> and
  \<open>\s*\<close> giving back what the rest needs. First the end of the expression: the text
  of the name, then \<open>\s*$\<close>.
\<close>

definition nameToEnd :: "string \<Rightarrow> string \<Rightarrow> bool" where
  "nameToEnd name r = (ci_prefix name r \<and> list_all is_space (drop (length name) r))"

text \<open>\<open>\s*\<close>, the name, then \<open>\s*$\<close>.\<close>

fun spacesThenName :: "string \<Rightarrow> string \<Rightarrow> bool" where
  "spacesThenName name [] = nameToEnd name []"
| "spacesThenName name (c # cs) =
     (nameToEnd name (c # cs) \<or> (is_space c \<and> spacesThenName name cs))"

text \<open>Up to \<open>n\<close> more \<open>#\<close>, then the rest of the expression.\<close>

fun hashesThenName :: "string \<Rightarrow> nat \<Rightarrow> string \<Rightarrow> bool" where
  "hashesThenName name 0 r = spacesThenName name r"
| "hashesThenName name (Suc n) r =
     (spacesThenName name r
      \<or> (case r of [] \<Rightarrow> False | c # cs \<Rightarrow> c = CHR ''#'' \<and> hashesThenName name n cs))"

definition isNamedHeader :: "headerName \<Rightarrow> string \<Rightarrow> bool" where
  "isNamedHeader name l =
     (case l of
        [] \<Rightarrow> False
      | c # cs \<Rightarrow> c = CHR ''#'' \<and> hashesThenName (nameText name) 5 cs)"

text \<open>
  \<open>findAfterSpecificHeader\<close>. The inner loop looks for the next header that is not
  deeper than the named one; when there is none the function returns the position
  behind the named header line itself.
\<close>

definition findAfterSpecificHeader :: "string \<Rightarrow> headerName \<Rightarrow> nat" where
  "findAfterSpecificHeader txt headerName =
     (let lines = split_lines txt
      in case firstIndex (isNamedHeader headerName) lines of
           None \<Rightarrow> length txt
         | Some i \<Rightarrow>
             (let lvl = (if 1 \<le> hashes (lines ! i) then hashes (lines ! i) else 2)
              in case firstIndex (closesLevel lvl) (drop (i + 1) lines) of
                   Some k \<Rightarrow> length (join_lines (js_slice lines 0 (int (i + 1 + k)))) + 1
                 | None \<Rightarrow> length (join_lines (js_slice lines 0 (int i + 1))) + 1))"

text \<open>\<open>this.settings.afterHeaderName || 'Tasks'\<close>.\<close>

definition headerNameOrDefault :: "Settings \<Rightarrow> headerName" where
  "headerNameOrDefault st =
     (case afterHeaderName st of
        None \<Rightarrow> tasksName
      | Some n \<Rightarrow> if nameText n = [] then tasksName else n)"

definition findInsertionPoint :: "Settings \<Rightarrow> string \<Rightarrow> nat" where
  "findInsertionPoint st txt =
     (case timingSectionLocation st of
        Top \<Rightarrow> findAfterTitle txt
      | Bottom \<Rightarrow> length txt
      | AfterHeader \<Rightarrow> findAfterSpecificHeader txt (headerNameOrDefault st)
      | Custom \<Rightarrow> length txt)"

text \<open>
  \<open>insertAtPosition\<close>; \<open>substring\<close> clamps the position to the text, as \<open>take\<close> and
  \<open>drop\<close> do.
\<close>

definition endsWith :: "string \<Rightarrow> string \<Rightarrow> bool" where
  "endsWith s x = suffix x s"

definition startsWith :: "string \<Rightarrow> string \<Rightarrow> bool" where
  "startsWith s x = prefix x s"

definition insertAtPosition :: "string \<Rightarrow> nat \<Rightarrow> string \<Rightarrow> string" where
  "insertAtPosition txt position insertContent =
     (let beforePart = take position txt;
          afterPart = drop position txt;
          spacing = (if endsWith beforePart [nl, nl] then []
                     else if endsWith beforePart [nl] then [nl] else [nl, nl]);
          endSpacing = (if startsWith afterPart [nl] then [] else [nl])
      in beforePart @ spacing @ insertContent @ endSpacing @ afterPart)"

section \<open>Synchronising a document\<close>

text \<open>
  The file is the state: each operation reads the text of the note and writes the new
  text back, so it is a function from the text to the new text. The locator and the
  operation it selects read the file one after the other; here both see the same text.
\<close>

definition replaceExistingSection ::
  "Settings \<Rightarrow> Rendered \<Rightarrow> TimingSectionInfo \<Rightarrow> string \<Rightarrow> string" where
  "replaceExistingSection st rd sectionInfo txt =
     (let lines = split_lines txt;
          reflectionContent = extractReflectionContent (content sectionInfo);
          newTimingContent =
            generateTimingContent st rd reflectionContent (headerLevel sectionInfo);
          newLines = js_slice lines 0 (startLine sectionInfo)
                     @ split_lines newTimingContent
                     @ js_slice_from lines (endLine sectionInfo)
      in join_lines newLines)"

definition insertNewSection :: "Settings \<Rightarrow> Rendered \<Rightarrow> string \<Rightarrow> string" where
  "insertNewSection st rd txt =
     (let insertionPoint = findInsertionPoint st txt;
          timingContent = generateTimingContent st rd None 2
      in insertAtPosition txt insertionPoint timingContent)"

definition updateTimingSection :: "Settings \<Rightarrow> Rendered \<Rightarrow> string \<Rightarrow> string" where
  "updateTimingSection st rd txt =
     (let sectionInfo = findTimingSection txt
      in if exists sectionInfo then replaceExistingSection st rd sectionInfo txt
         else insertNewSection st rd txt)"

section \<open>The raw data transformer\<close>

text \<open>
  A number of the engine: a finite double, here a rational (every finite double is
  one, and \<open>Math.round\<close>, \<open>Math.max\<close>, \<open>Math.min\<close> and the comparisons used below are
  exact on them), or one of \<open>NaN\<close>, \<open>Infinity\<close> and \<open>-Infinity\<close>. The payload comes
  from \<open>JSON.parse\<close> or is built by the caller, whose arithmetic may give \<open>NaN\<close>.
\<close>

datatype jsnumber = Finite rat | NaN | PosInfinity | NegInfinity

text \<open>
  A value of the payload: \<open>null\<close>, booleans, numbers, strings, arrays and objects;
  \<open>JUndefined\<close> is the value of a property that is not there. \<open>typeof v\<close> is
  \<open>'number'\<close> exactly for \<open>JNum\<close>. An object is the list of its properties; of two
  entries with one key the first counts.
\<close>

datatype jsval =
    JUndefined
  | JNull
  | JBool bool
  | JNum jsnumber
  | JStr string
  | JArr "jsval list"
  | JObj "(string \<times> jsval) list"

fun truthy :: "jsval \<Rightarrow> bool" where
  "truthy JUndefined = False"
| "truthy JNull = False"
| "truthy (JBool b) = b"
| "truthy (JNum n) = (n \<noteq> Finite 0 \<and> n \<noteq> NaN)"
| "truthy (JStr s) = (s \<noteq> [])"
| "truthy (JArr vs) = True"
| "truthy (JObj kvs) = True"

fun nullish :: "jsval \<Rightarrow> bool" where
  "nullish JUndefined = True"
| "nullish JNull = True"
| "nullish v = False"

text \<open>\<open>n < 0\<close>, which is false for \<open>NaN\<close>.\<close>

fun lessZero :: "jsnumber \<Rightarrow> bool" where
  "lessZero (Finite x) = (x < 0)"
| "lessZero NaN = False"
| "lessZero PosInfinity = False"
| "lessZero NegInfinity = True"

text \<open>\<open>Math.round\<close> on a rational: the nearest integer, a tie going up.\<close>

definition mathRound :: "rat \<Rightarrow> int" where
  "mathRound x = \<lfloor>x + 1 / 2\<rfloor>"

text \<open>
  \<open>Math.round(n)\<close>, \<open>Math.max(a, n)\<close> and \<open>Math.min(a, n)\<close> for a finite \<open>a\<close>: each
  returns \<open>NaN\<close> for \<open>NaN\<close>.
\<close>

fun roundNumber :: "jsnumber \<Rightarrow> jsnumber" where
  "roundNumber (Finite x) = Finite (of_int (mathRound x))"
| "roundNumber NaN = NaN"
| "roundNumber PosInfinity = PosInfinity"
| "roundNumber NegInfinity = NegInfinity"

fun maxNumber :: "rat \<Rightarrow> jsnumber \<Rightarrow> jsnumber" where
  "maxNumber a (Finite x) = Finite (max a x)"
| "maxNumber a NaN = NaN"
| "maxNumber a PosInfinity = PosInfinity"
| "maxNumber a NegInfinity = Finite a"

fun minNumber :: "rat \<Rightarrow> jsnumber \<Rightarrow> jsnumber" where
  "minNumber a (Finite x) = Finite (min a x)"
| "minNumber a NaN = NaN"
| "minNumber a PosInfinity = Finite a"
| "minNumber a NegInfinity = NegInfinity"

text \<open>\<open>m + n\<close> and \<open>n || 0\<close>.\<close>

fun plusNumber :: "jsnumber \<Rightarrow> jsnumber \<Rightarrow> jsnumber" where
  "plusNumber (Finite x) (Finite y) = Finite (x + y)"
| "plusNumber NaN n = NaN"
| "plusNumber m NaN = NaN"
| "plusNumber PosInfinity NegInfinity = NaN"
| "plusNumber NegInfinity PosInfinity = NaN"
| "plusNumber PosInfinity n = PosInfinity"
| "plusNumber m PosInfinity = PosInfinity"
| "plusNumber NegInfinity n = NegInfinity"
| "plusNumber m NegInfinity = NegInfinity"

definition orZero :: "jsnumber \<Rightarrow> jsnumber" where
  "orZero n = (if n = NaN \<or> n = Finite 0 then Finite 0 else n)"

text \<open>
  Reading one of the properties \<open>date\<close>, \<open>entries\<close>, \<open>startTime\<close>, \<open>endTime\<close>,
  \<open>duration\<close>, \<open>application\<close>, \<open>category\<close>, \<open>title\<close>, \<open>productivity\<close> of a value
  that is neither \<open>null\<close> nor \<open>undefined\<close> (on those the read throws a
  \<open>TypeError\<close>, which the callers below check first). A primitive has none of them.
  An array has none of them but \<open>entries\<close>, which is a method and so not an array
  either; the transformer reads it only from a value that has a \<open>date\<close>.
\<close>

fun getProp :: "jsval \<Rightarrow> string \<Rightarrow> jsval" where
  "getProp (JObj kvs) k = (case map_of kvs k of None \<Rightarrow> JUndefined | Some v \<Rightarrow> v)"
| "getProp v k = JUndefined"

datatype error =
    RawDataMissing
  | DateMissing
  | InvalidDateFormat
  | EntriesNotArray
  | MissingTimeFields
  | MissingApplication
  | InvalidDuration
  | InvalidTimeFormat
  | TypeError

text \<open>
  What the transformer takes from the engine and the model leaves open: \<open>String(v)\<close>
  for a value that is not a string.
\<close>

record Platform =
  toText :: "jsval \<Rightarrow> string"

definition is_digit :: "char \<Rightarrow> bool" where
  "is_digit c = (48 \<le> (of_char c :: nat) \<and> (of_char c :: nat) \<le> 57)"

definition digitsValue :: "string \<Rightarrow> int" where
  "digitsValue ds = foldl (\<lambda>a c. 10 * a + (int (of_char c) - 48)) 0 ds"

text \<open>\<open>/^\d{4}-\d{2}-\d{2}$/\<close>.\<close>

definition datePattern :: "string \<Rightarrow> bool" where
  "datePattern s =
     (length s = 10 \<and> (\<forall>i \<in> {0, 1, 2, 3, 5, 6, 8, 9}. is_digit (s ! i))
      \<and> s ! 4 = CHR ''-'' \<and> s ! 7 = CHR ''-'')"

text \<open>
  \<open>!isNaN(new Date(s).getTime())\<close> for a text of the form that \<open>datePattern\<close> accepts,
  the date-only form of the language's date format. The engine reads the three
  fields and asks of the month that it is 01 to 12 and of the day that it is 01 to
  31, whatever the month: a day past the end of the month, as in \<open>2024-02-30\<close>, is not
  refused but counted on into the next month. Every year of four digits is in range.
\<close>

definition dateParses :: "string \<Rightarrow> bool" where
  "dateParses s =
     (let month = digitsValue (take 2 (drop 5 s)); day = digitsValue (take 2 (drop 8 s))
      in 1 \<le> month \<and> month \<le> 12 \<and> 1 \<le> day \<and> day \<le> 31)"

text \<open>
  Both \<open>new Date(v)\<close> and \<open>test(v)\<close> turn a value that is not a string into one
  first. Only a string, or an array of one element that is such a value again, can
  give a text with neither a comma nor a letter in it, and on any other text the
  pattern fails, whatever \<open>new Date\<close> makes of it.
\<close>

fun dateText :: "jsval \<Rightarrow> string option" where
  "dateText (JStr s) = Some s"
| "dateText (JArr [v]) = dateText v"
| "dateText v = None"

definition isValidDate :: "jsval \<Rightarrow> bool" where
  "isValidDate dateString =
     (case dateText dateString of
        None \<Rightarrow> False
      | Some s \<Rightarrow> datePattern s \<and> dateParses s)"

fun isArray :: "jsval \<Rightarrow> bool" where
  "isArray (JArr vs) = True"
| "isArray v = False"

fun elements :: "jsval \<Rightarrow> jsval list" where
  "elements (JArr vs) = vs"
| "elements v = []"

definition validateRawData :: "jsval \<Rightarrow> error + unit" where
  "validateRawData rawData =
     (if \<not> truthy rawData then Inl RawDataMissing
      else if \<not> truthy (getProp rawData ''date'') then Inl DateMissing
      else if \<not> isValidDate (getProp rawData ''date'') then Inl InvalidDateFormat
      else if \<not> isArray (getProp rawData ''entries'') then Inl EntriesNotArray
      else Inr ())"

text \<open>
  \<open>validateRawEntry\<close>. The last test is
  \<open>typeof rawEntry.duration !== 'number' || rawEntry.duration < 0\<close>, which \<open>NaN\<close> and
  \<open>Infinity\<close> pass.
\<close>

definition validateRawEntry :: "jsval \<Rightarrow> error + unit" where
  "validateRawEntry rawEntry =
     (if nullish rawEntry then Inl TypeError
      else if \<not> truthy (getProp rawEntry ''startTime'') \<or> \<not> truthy (getProp rawEntry ''endTime'')
        then Inl MissingTimeFields
      else if \<not> truthy (getProp rawEntry ''application'') then Inl MissingApplication
      else (case getProp rawEntry ''duration'' of
              JNum n \<Rightarrow> if lessZero n then Inl InvalidDuration else Inr ()
            | v \<Rightarrow> Inl InvalidDuration))"

text \<open>
  \<open>normalizeTime\<close> with \<open>/^(\d{1,2}):(\d{2}):(\d{2})$/\<close>; a value that is not a
  string has no method \<open>match\<close>, and the call throws.
\<close>

definition normalizeTime :: "jsval \<Rightarrow> error + string" where
  "normalizeTime timeString =
     (case timeString of
        JStr s \<Rightarrow>
          (let hours = takeWhile is_digit s; r = drop (length hours) s
           in if (length hours = 1 \<or> length hours = 2) \<and> length r = 6
                 \<and> r ! 0 = CHR '':'' \<and> is_digit (r ! 1) \<and> is_digit (r ! 2)
                 \<and> r ! 3 = CHR '':'' \<and> is_digit (r ! 4) \<and> is_digit (r ! 5)
              then Inr ((if length hours = 1 then CHR ''0'' # hours else hours)
                        @ '':'' @ [r ! 1, r ! 2] @ '':'' @ [r ! 4, r ! 5])
              else Inl InvalidTimeFormat)
      | v \<Rightarrow> Inl TypeError)"

text \<open>
  \<open>parseInt(s, 10)\<close>: leading white space, an optional sign, then the longest run of
  digits; \<open>NaN\<close> (here \<open>None\<close>) when that run is empty.
\<close>

definition parseInt10 :: "string \<Rightarrow> int option" where
  "parseInt10 s =
     (let t = dropWhile is_space s;
          neg = (t \<noteq> [] \<and> hd t = CHR ''-'');
          u = (if t \<noteq> [] \<and> (hd t = CHR ''-'' \<or> hd t = CHR ''+'') then tl t else t);
          ds = takeWhile is_digit u
      in if ds = [] then None
         else Some (if neg then - digitsValue ds else digitsValue ds))"

text \<open>
  \<open>parseDuration\<close>: \<open>Math.max(0, Math.round(duration))\<close> for a number, which is
  \<open>NaN\<close> for \<open>NaN\<close> and \<open>Infinity\<close> for \<open>Infinity\<close>.
\<close>

definition parseDuration :: "jsval \<Rightarrow> error + jsnumber" where
  "parseDuration d =
     (case d of
        JNum n \<Rightarrow> Inr (maxNumber 0 (roundNumber n))
      | JStr s \<Rightarrow> (case parseInt10 s of
                     Some parsed \<Rightarrow> Inr (maxNumber 0 (Finite (of_int parsed)))
                   | None \<Rightarrow> Inl InvalidDuration)
      | v \<Rightarrow> Inl InvalidDuration)"

definition parseProductivity :: "jsval \<Rightarrow> jsnumber option" where
  "parseProductivity p =
     (case p of
        JNum n \<Rightarrow> Some (maxNumber 0 (minNumber 5 (roundNumber n)))
      | JStr s \<Rightarrow> (case parseInt10 s of
                     Some parsed \<Rightarrow> Some (maxNumber 0 (minNumber 5 (Finite (of_int parsed))))
                   | None \<Rightarrow> None)
      | v \<Rightarrow> None)"

text \<open>\<open>replace(/\s+/g, ' ')\<close>; the flag says whether the run has begun.\<close>

fun collapseSpaces :: "bool \<Rightarrow> string \<Rightarrow> string" where
  "collapseSpaces inRun [] = []"
| "collapseSpaces inRun (c # cs) =
     (if is_space c
      then (if inRun then collapseSpaces True cs else CHR '' '' # collapseSpaces True cs)
      else c # collapseSpaces False cs)"

definition sanitizeString :: "Platform \<Rightarrow> jsval \<Rightarrow> string" where
  "sanitizeString pf input =
     (case input of
        JStr s \<Rightarrow>
          take 200 (collapseSpaces False
            (map (\<lambda>c. if c = CHR 0x0D \<or> c = CHR 0x0A \<or> c = CHR 0x09 then CHR '' '' else c)
               (trim s)))
      | v \<Rightarrow> if truthy v then toText pf v else [])"

text \<open>
  A \<open>TimeEntry\<close>, with the type of its duration left open: an integer number of
  seconds where the entry is as the interface documents it, a number of the engine
  where it comes out of \<open>transformEntry\<close>.
\<close>

record 'n TimeEntry =
  startTime :: string
  endTime :: string
  duration :: 'n
  application :: string
  category :: "string option"
  title :: "string option"
  productivity :: "jsnumber option"

text \<open>The body of the \<open>try\<close> in \<open>transformEntry\<close>, and the \<open>catch\<close> around it.\<close>

definition transformEntryTry :: "Platform \<Rightarrow> jsval \<Rightarrow> error + jsnumber TimeEntry" where
  "transformEntryTry pf rawEntry =
     (case validateRawEntry rawEntry of
        Inl e \<Rightarrow> Inl e
      | Inr u \<Rightarrow>
     (case normalizeTime (getProp rawEntry ''startTime'') of
        Inl e \<Rightarrow> Inl e
      | Inr st \<Rightarrow>
     (case normalizeTime (getProp rawEntry ''endTime'') of
        Inl e \<Rightarrow> Inl e
      | Inr en \<Rightarrow>
     (case parseDuration (getProp rawEntry ''duration'') of
        Inl e \<Rightarrow> Inl e
      | Inr d \<Rightarrow>
          Inr \<lparr>startTime = st, endTime = en, duration = d,
               application = sanitizeString pf (getProp rawEntry ''application''),
               category = (if truthy (getProp rawEntry ''category'')
                           then Some (sanitizeString pf (getProp rawEntry ''category''))
                           else None),
               title = (if truthy (getProp rawEntry ''title'')
                        then Some (sanitizeString pf (getProp rawEntry ''title''))
                        else None),
               productivity = (if truthy (getProp rawEntry ''productivity'')
                               then parseProductivity (getProp rawEntry ''productivity'')
                               else None)\<rparr>))))"

definition transformEntry :: "Platform \<Rightarrow> jsval \<Rightarrow> jsnumber TimeEntry option" where
  "transformEntry pf rawEntry =
     (case transformEntryTry pf rawEntry of Inl e \<Rightarrow> None | Inr t \<Rightarrow> Some t)"

text \<open>
  \<open>map\<close>, \<open>filter\<close>, then the stable \<open>sort\<close> by \<open>localeCompare\<close> of the start
  times, which on the normalised \<open>HH:MM:SS\<close> texts is the order of the code units.
\<close>

definition transformEntries :: "Platform \<Rightarrow> jsval list \<Rightarrow> jsnumber TimeEntry list" where
  "transformEntries pf rawEntries =
     sort_key startTime
       (map the (filter (\<lambda>t. t \<noteq> None) (map (transformEntry pf) rawEntries)))"

text \<open>
  The summary. A \<open>Map\<close> is a partial function; the key of \<open>byHour\<close> is what
  \<open>parseInt\<close> returned, \<open>None\<close> standing for \<open>NaN\<close>, which a \<open>Map\<close> keeps as one key.
  The type of the sums is that of the durations.
\<close>

record 'n TimeSummary =
  totalTime :: 'n
  byApplication :: "string \<rightharpoonup> 'n"
  byCategory :: "string \<rightharpoonup> 'n"
  byHour :: "int option \<rightharpoonup> 'n"

definition extractHour :: "string \<Rightarrow> int option" where
  "extractHour timeString = parseInt10 (takeWhile (\<lambda>c. c \<noteq> CHR '':'') timeString)"

text \<open>
  \<open>calculateSummary\<close> over entries whose durations are integers, as the interface
  documents them. \<open>m.get(k) || 0\<close>:
\<close>

definition getOr0 :: "('k \<rightharpoonup> int) \<Rightarrow> 'k \<Rightarrow> int" where
  "getOr0 m k = (case m k of None \<Rightarrow> 0 | Some v \<Rightarrow> v)"

text \<open>One round of the loop in \<open>calculateSummary\<close>.\<close>

definition addEntry :: "int TimeSummary \<Rightarrow> int TimeEntry \<Rightarrow> int TimeSummary" where
  "addEntry sm entry =
     \<lparr>totalTime = totalTime sm + duration entry,
      byApplication = (byApplication sm)
        (application entry \<mapsto> getOr0 (byApplication sm) (application entry) + duration entry),
      byCategory =
        (case category entry of
           None \<Rightarrow> byCategory sm
         | Some c \<Rightarrow>
             if c = [] then byCategory sm
             else (byCategory sm)(c \<mapsto> getOr0 (byCategory sm) c + duration entry)),
      byHour = (byHour sm)
        (extractHour (startTime entry) \<mapsto>
           getOr0 (byHour sm) (extractHour (startTime entry)) + duration entry)\<rparr>"

definition emptySummary :: "int TimeSummary" where
  "emptySummary =
     \<lparr>totalTime = 0, byApplication = Map.empty, byCategory = Map.empty, byHour = Map.empty\<rparr>"

definition calculateSummary :: "int TimeEntry list \<Rightarrow> int TimeSummary" where
  "calculateSummary es = foldl addEntry emptySummary es"

text \<open>
  The same loop over the entries that \<open>transformEntries\<close> returns, whose durations
  are numbers of the engine: \<open>+\<close> and \<open>|| 0\<close> as the engine computes them, so that a
  sum that has become \<open>NaN\<close> starts again from 0 in a \<open>Map\<close> and stays \<open>NaN\<close> in
  \<open>totalTime\<close>.
\<close>

definition getOrZero :: "('k \<rightharpoonup> jsnumber) \<Rightarrow> 'k \<Rightarrow> jsnumber" where
  "getOrZero m k = (case m k of None \<Rightarrow> Finite 0 | Some v \<Rightarrow> orZero v)"

definition addNumberEntry ::
  "jsnumber TimeSummary \<Rightarrow> jsnumber TimeEntry \<Rightarrow> jsnumber TimeSummary" where
  "addNumberEntry sm entry =
     \<lparr>totalTime = plusNumber (totalTime sm) (duration entry),
      byApplication = (byApplication sm)
        (application entry \<mapsto>
           plusNumber (getOrZero (byApplication sm) (application entry)) (duration entry)),
      byCategory =
        (case category entry of
           None \<Rightarrow> byCategory sm
         | Some c \<Rightarrow>
             if c = [] then byCategory sm
             else (byCategory sm)(c \<mapsto> plusNumber (getOrZero (byCategory sm) c) (duration entry))),
      byHour = (byHour sm)
        (extractHour (startTime entry) \<mapsto>
           plusNumber (getOrZero (byHour sm) (extractHour (startTime entry))) (duration entry))\<rparr>"

definition emptyNumberSummary :: "jsnumber TimeSummary" where
  "emptyNumberSummary =
     \<lparr>totalTime = Finite 0, byApplication = Map.empty, byCategory = Map.empty,
      byHour = Map.empty\<rparr>"

definition calculateNumberSummary :: "jsnumber TimeEntry list \<Rightarrow> jsnumber TimeSummary" where
  "calculateNumberSummary es = foldl addNumberEntry emptyNumberSummary es"

text \<open>An integer as a number of the engine, and with it an entry and a summary.\<close>

definition asNumber :: "int \<Rightarrow> jsnumber" where
  "asNumber k = Finite (of_int k)"

definition numberEntry :: "int TimeEntry \<Rightarrow> jsnumber TimeEntry" where
  "numberEntry e =
     \<lparr>startTime = startTime e, endTime = endTime e, duration = asNumber (duration e),
      application = application e, category = category e, title = title e,
      productivity = productivity e\<rparr>"

definition numberSummary :: "int TimeSummary \<Rightarrow> jsnumber TimeSummary" where
  "numberSummary sm =
     \<lparr>totalTime = asNumber (totalTime sm),
      byApplication = map_option asNumber \<circ> byApplication sm,
      byCategory = map_option asNumber \<circ> byCategory sm,
      byHour = map_option asNumber \<circ> byHour sm\<rparr>"

record DailyTimeData =
  date :: jsval
  entries :: "jsnumber TimeEntry list"
  summary :: "jsnumber TimeSummary"

definition transformTimingData :: "Platform \<Rightarrow> jsval \<Rightarrow> error + DailyTimeData" where
  "transformTimingData pf rawData =
     (case validateRawData rawData of
        Inl e \<Rightarrow> Inl e
      | Inr u \<Rightarrow>
          (let es = transformEntries pf (elements (getProp rawData ''entries''))
           in Inr \<lparr>date = getProp rawData ''date'', entries = es,
                   summary = calculateNumberSummary es\<rparr>))"

text \<open>
  The raw text of the reflection sub-section, before \<open>trim\<close>: the part of
  \<open>extractReflectionContent\<close> up to the joined lines.
\<close>

definition reflectionBody :: "string \<Rightarrow> string option" where
  "reflectionBody sectionContent =
     (let lines = split_lines sectionContent
      in case firstIndex isReflectionHeader lines of
           None \<Rightarrow> None
         | Some rs \<Rightarrow>
             (let lvl = (if 1 \<le> hashes (lines ! rs) then hashes (lines ! rs) else 2)
              in Some (join_lines
                   (js_slice lines (int rs + 1) (int (sectionEnd lvl lines (rs + 1)))))))"

text \<open>
  The header line that \<open>generateTimingContent\<close> writes first, and the sub-header of
  its reflection.
\<close>

definition headerLine :: "nat \<Rightarrow> string" where
  "headerLine lvl = replicate lvl (CHR ''#'') @ '' Timing Tracking''"

definition reflectionHeaderLine :: "nat \<Rightarrow> string" where
  "reflectionHeaderLine lvl = replicate (Suc lvl) (CHR ''#'') @ '' Reflection''"

text \<open>
  A rendering of the day that is well formed for a section of depth \<open>lvl\<close>: apart
  from the header line, no line of the section without its reflection starts with
  between one and \<open>lvl\<close> characters \<open>#\<close>; and, when the reflection sub-section is to be
  written behind it, the rendering ends with a line end and none of its lines matches
  the reflection header. The generators of the source meet this whenever the names in
  the data hold no line end: their lines start with the sub-header prefix, \<open>- \<close>,
  \<open>|\<close> or \<open>*\<close>, or are empty, and each ends a line.
\<close>

definition wellRendered :: "Settings \<Rightarrow> Rendered \<Rightarrow> nat \<Rightarrow> bool" where
  "wellRendered st rd lvl =
     (let body = generateTimingContent (st\<lparr>includeReflection := False\<rparr>) rd None lvl
      in (\<forall>l \<in> set (tl (split_lines body)). \<not> closesLevel lvl l)
         \<and> (includeReflection st \<longrightarrow>
              endsWith body [nl] \<and> (\<forall>l \<in> set (split_lines body). \<not> isReflectionHeader l)))"

text \<open>
  The section text that \<open>updateTimingSection\<close> writes into a note: the
  \<open>newTimingContent\<close> of \<open>replaceExistingSection\<close> when the note has the section, the
  \<open>timingContent\<close> of \<open>insertNewSection\<close> otherwise.
\<close>

definition writtenSection :: "Settings \<Rightarrow> Rendered \<Rightarrow> string \<Rightarrow> string" where
  "writtenSection st rd txt =
     (let sectionInfo = findTimingSection txt
      in if exists sectionInfo
         then generateTimingContent st rd (extractReflectionContent (content sectionInfo))
                (headerLevel sectionInfo)
         else generateTimingContent st rd None 2)"

text \<open>A position at which a line starts, or the end of the text.\<close>

definition lineStart :: "nat \<Rightarrow> string \<Rightarrow> bool" where
  "lineStart p txt = (p = 0 \<or> length txt \<le> p \<or> txt ! (p - 1) = nl)"

section \<open>Example inputs\<close>

text \<open>Settings for the examples.\<close>

definition bottomNoReflection :: Settings where
  "bottomNoReflection =
     \<lparr>timingSectionLocation = Bottom, afterHeaderName = None, includeTimeline = False,
      includeReflection = False, groupBy = ByApplication\<rparr>"

definition bottomWithReflection :: Settings where
  "bottomWithReflection =
     \<lparr>timingSectionLocation = Bottom, afterHeaderName = None, includeTimeline = False,
      includeReflection = True, groupBy = ByApplication\<rparr>"

definition topNoReflection :: Settings where
  "topNoReflection =
     \<lparr>timingSectionLocation = Top, afterHeaderName = None, includeTimeline = False,
      includeReflection = False, groupBy = ByApplication\<rparr>"

definition afterTasks :: Settings where
  "afterTasks =
     \<lparr>timingSectionLocation = AfterHeader, afterHeaderName = Some tasksName,
      includeTimeline = False, includeReflection = False, groupBy = ByApplication\<rparr>"

text \<open>
  A platform for the examples: \<open>String\<close> of a value that is not a string, which
  no example needs, is empty.
\<close>

definition samplePlatform :: Platform where
  "samplePlatform = \<lparr>toText = (\<lambda>v. [])\<rparr>"

text \<open>The two entries of the aggregation example.\<close>

definition twoEntries :: "jsval list" where
  "twoEntries =
     [JObj [(''startTime'', JStr ''09:00:00''), (''endTime'', JStr ''09:30:00''),
            (''duration'', JNum (Finite 1800)), (''application'', JStr ''A'')],
      JObj [(''startTime'', JStr ''10:00:00''), (''endTime'', JStr ''10:10:00''),
            (''duration'', JNum (Finite 600)), (''application'', JStr ''A'')]]"

text \<open>Two transformed entries, the second of which runs across ten o'clock.\<close>

definition crossingEntries :: "int TimeEntry list" where
  "crossingEntries =
     [\<lparr>startTime = ''09:10:00'', endTime = ''09:15:00'', duration = 300,
       application = ''Mail'', category = None, title = None, productivity = None\<rparr>,
      \<lparr>startTime = ''09:50:00'', endTime = ''10:20:00'', duration = 1800,
       application = ''Editor'', category = Some ''Work'', title = None, productivity = None\<rparr>]"

text \<open>
  A payload of three entries, not in the order of their start times, the second with
  the duration \<open>"abc"\<close>.
\<close>

definition threeEntries :: jsval where
  "threeEntries =
     JObj [(''date'', JStr ''2024-01-15''),
           (''entries'', JArr
             [JObj [(''startTime'', JStr ''10:00:00''), (''endTime'', JStr ''10:10:00''),
                    (''duration'', JNum (Finite 600)), (''application'', JStr ''B'')],
              JObj [(''startTime'', JStr ''09:30:00''), (''endTime'', JStr ''09:40:00''),
                    (''duration'', JStr ''abc''), (''application'', JStr ''C'')],
              JObj [(''startTime'', JStr ''09:00:00''), (''endTime'', JStr ''09:30:00''),
                    (''duration'', JNum (Finite 1800)), (''application'', JStr ''A'')]])]"

text \<open>A payload for the thirtieth of February, with no entries.\<close>

definition februaryThirtieth :: jsval where
  "februaryThirtieth = JObj [(''date'', JStr ''2024-02-30''), (''entries'', JArr [])]"

text \<open>
  An entry whose duration is \<open>NaN\<close>, as \<open>Math.round\<close> of a duration that is not a
  number gives it, and one whose duration is the numeric string \<open>"1800"\<close>.
\<close>

definition nanEntry :: jsval where
  "nanEntry =
     JObj [(''startTime'', JStr ''09:00:00''), (''endTime'', JStr ''09:30:00''),
           (''duration'', JNum NaN), (''application'', JStr ''A'')]"

definition textEntry :: jsval where
  "textEntry =
     JObj [(''startTime'', JStr ''09:00:00''), (''endTime'', JStr ''09:30:00''),
           (''duration'', JStr ''1800''), (''application'', JStr ''A'')]"

text \<open>
  An entry that lasted 1799.5 seconds, with a start time of one digit for the hour,
  and an entry with a negative duration.
\<close>

definition halfSecondEntry :: jsval where
  "halfSecondEntry =
     JObj [(''startTime'', JStr ''9:00:00''), (''endTime'', JStr ''09:30:00''),
           (''duration'', JNum (Finite (3599 / 2))), (''application'', JStr ''A'')]"

definition negativeEntry :: jsval where
  "negativeEntry =
     JObj [(''startTime'', JStr ''09:00:00''), (''endTime'', JStr ''09:30:00''),
           (''duration'', JNum (Finite (- 5))), (''application'', JStr ''A'')]"

section \<open>Lines, joins and first indices\<close>

lemma split_lines_nonempty [simp]: "split_lines s \<noteq> []"
  by (induction s) (auto split: list.splits)

lemma join_split [simp]: "join_lines (split_lines s) = s"
proof (induction s)
  case Nil
  show ?case by simp
next
  case (Cons c cs)
  obtain l ls where sp: "split_lines cs = l # ls"
    by (cases "split_lines cs") auto
  show ?case
  proof (cases "c = nl")
    case True
    with Cons sp show ?thesis by simp
  next
    case False
    with Cons sp show ?thesis by (cases ls) auto
  qed
qed

lemma split_no_nl: "nl \<notin> set s \<Longrightarrow> split_lines s = [s]"
  by (induction s) auto

lemma split_append_nl: "nl \<notin> set a \<Longrightarrow> split_lines (a @ nl # b) = a # split_lines b"
  by (induction a) auto

lemma split_append_nl_gen: "split_lines (a @ nl # b) = split_lines a @ split_lines b"
proof (induction a)
  case Nil
  show ?case by simp
next
  case (Cons c cs)
  obtain l ls where sp: "split_lines cs = l # ls"
    by (cases "split_lines cs") auto
  with Cons show ?case by auto
qed

lemma lines_no_nl: "l \<in> set (split_lines s) \<Longrightarrow> nl \<notin> set l"
proof (induction s arbitrary: l)
  case Nil
  then show ?case by simp
next
  case (Cons c cs)
  obtain m ms where sp: "split_lines cs = m # ms"
    by (cases "split_lines cs") auto
  from Cons sp show ?case
    by (auto split: if_splits)
qed

lemma join_append:
  "xs \<noteq> [] \<Longrightarrow> ys \<noteq> [] \<Longrightarrow> join_lines (xs @ ys) = join_lines xs @ nl # join_lines ys"
proof (induction xs rule: join_lines.induct)
  case 1
  then show ?case by simp
next
  case (2 l)
  then show ?case by (cases ys) auto
next
  case (3 l m ls)
  then show ?case by simp
qed

lemma split_join:
  "xs \<noteq> [] \<Longrightarrow> \<forall>l \<in> set xs. nl \<notin> set l \<Longrightarrow> split_lines (join_lines xs) = xs"
proof (induction xs rule: join_lines.induct)
  case 1
  then show ?case by simp
next
  case (2 l)
  then show ?case by (simp add: split_no_nl)
next
  case (3 l m ls)
  then show ?case by (simp add: split_append_nl)
qed

lemma firstIndex_Some:
  "firstIndex p xs = Some i \<Longrightarrow> i < length xs \<and> p (xs ! i) \<and> (\<forall>j < i. \<not> p (xs ! j))"
proof (induction xs arbitrary: i)
  case Nil
  then show ?case by simp
next
  case (Cons x xs)
  show ?case
  proof (cases "p x")
    case True
    with Cons.prems show ?thesis by simp
  next
    case False
    with Cons.prems obtain k where k: "firstIndex p xs = Some k" "i = Suc k"
      by auto
    from Cons.IH [OF k(1)] False k(2) show ?thesis
      by (auto simp: nth_Cons split: nat.splits)
  qed
qed

lemma firstIndex_None: "firstIndex p xs = None \<longleftrightarrow> (\<forall>x \<in> set xs. \<not> p x)"
  by (induction xs) auto

lemma firstIndex_append_Some:
  "firstIndex p xs = Some i \<Longrightarrow> firstIndex p (xs @ ys) = Some i"
  by (induction xs arbitrary: i) (auto split: if_splits)

lemma firstIndex_append_None:
  "firstIndex p xs = None \<Longrightarrow>
   firstIndex p (xs @ ys) = (case firstIndex p ys of None \<Rightarrow> None | Some k \<Rightarrow> Some (length xs + k))"
  by (induction xs) (auto split: if_splits option.splits)

lemma sectionEnd_bounds:
  "from \<le> length lines \<Longrightarrow>
   from \<le> sectionEnd lvl lines from \<and> sectionEnd lvl lines from \<le> length lines"
  by (auto simp: sectionEnd_def split: option.splits dest!: firstIndex_Some)

lemma sectionEnd_open:
  assumes "from \<le> j" and "j < sectionEnd lvl lines from"
  shows "\<not> closesLevel lvl (lines ! j)"
proof (cases "firstIndex (closesLevel lvl) (drop from lines)")
  case None
  with assms have "j < length lines"
    by (simp add: sectionEnd_def)
  with assms(1) have "drop from lines ! (j - from) = lines ! j"
    and "j - from < length (drop from lines)"
    by auto
  then have "lines ! j \<in> set (drop from lines)"
    by (metis nth_mem)
  with None show ?thesis
    by (simp add: firstIndex_None)
next
  case (Some k)
  from firstIndex_Some [OF Some] have k: "k < length lines - from"
    "\<forall>i < k. \<not> closesLevel lvl (drop from lines ! i)"
    by auto
  from assms Some have "j - from < k"
    by (simp add: sectionEnd_def)
  with k(2) have "\<not> closesLevel lvl (drop from lines ! (j - from))"
    by blast
  moreover from assms(1) k(1) \<open>j - from < k\<close> have "drop from lines ! (j - from) = lines ! j"
    by simp
  ultimately show ?thesis by simp
qed

lemma sectionEnd_closed:
  assumes "sectionEnd lvl lines from < length lines" and "from \<le> length lines"
  shows "closesLevel lvl (lines ! sectionEnd lvl lines from)"
proof (cases "firstIndex (closesLevel lvl) (drop from lines)")
  case None
  with assms show ?thesis by (simp add: sectionEnd_def)
next
  case (Some k)
  from firstIndex_Some [OF Some] have "k < length lines - from"
    "closesLevel lvl (drop from lines ! k)"
    by auto
  with Some assms(2) show ?thesis
    by (simp add: sectionEnd_def)
qed

lemma js_slice_nat:
  "s \<le> e \<Longrightarrow> e \<le> length xs \<Longrightarrow> js_slice xs (int s) (int e) = take (e - s) (drop s xs)"
  by (simp add: js_slice_def js_index_def)

lemma js_slice_from_nat: "js_slice_from xs (int e) = drop e xs"
  by (cases "e \<le> length xs") (simp_all add: js_slice_from_def js_index_def min_def)

lemma js_slice_0: "js_slice xs 0 (int e) = take e xs"
  by (cases "e \<le> length xs") (simp_all add: js_slice_def js_index_def min_def)

lemma isTimingHeader_hashes: "isTimingHeader l \<Longrightarrow> 1 \<le> hashes l \<and> hashes l \<le> 6"
  by (simp add: isTimingHeader_def Let_def)

lemma findTimingSection_found:
  assumes "firstIndex isTimingHeader (split_lines txt) = Some s"
  shows "findTimingSection txt =
     \<lparr>exists = True, startLine = int s,
      endLine = int (sectionEnd (hashes (split_lines txt ! s)) (split_lines txt) (s + 1)),
      content = join_lines (take (sectionEnd (hashes (split_lines txt ! s)) (split_lines txt) (s + 1) - s)
                  (drop s (split_lines txt))),
      headerLevel = hashes (split_lines txt ! s)\<rparr>"
proof -
  from firstIndex_Some [OF assms] have s: "s < length (split_lines txt)"
    "isTimingHeader (split_lines txt ! s)" by auto
  from isTimingHeader_hashes [OF s(2)] have h: "1 \<le> hashes (split_lines txt ! s)"
    by simp
  from s(1) have "Suc s \<le> length (split_lines txt)" by simp
  from sectionEnd_bounds [OF this, of "hashes (split_lines txt ! s)"]
  have b: "s \<le> sectionEnd (hashes (split_lines txt ! s)) (split_lines txt) (Suc s)"
      "sectionEnd (hashes (split_lines txt ! s)) (split_lines txt) (Suc s) \<le> length (split_lines txt)"
    by simp_all
  show ?thesis
    using assms h by (simp add: findTimingSection_def Let_def js_slice_nat [OF b])
qed

lemma findTimingSection_missing:
  assumes "firstIndex isTimingHeader (split_lines txt) = None"
  shows "findTimingSection txt =
     \<lparr>exists = False, startLine = -1, endLine = -1, content = [], headerLevel = 0\<rparr>"
  using assms by (simp add: findTimingSection_def)

lemma exists_findTimingSection:
  "exists (findTimingSection txt) \<longleftrightarrow> (\<exists>l \<in> set (split_lines txt). isTimingHeader l)"
proof (cases "firstIndex isTimingHeader (split_lines txt)")
  case None
  then show ?thesis
    by (simp add: findTimingSection_missing) (simp add: firstIndex_None)
next
  case (Some s)
  from firstIndex_Some [OF Some] have "split_lines txt ! s \<in> set (split_lines txt)"
    "isTimingHeader (split_lines txt ! s)" by auto
  with Some show ?thesis
    by (auto simp: findTimingSection_found)
qed

text \<open>
  Claim C4. When the locator finds the header at line \<open>startLine\<close> (counted from 0), that
  line is the first one matching the title, its depth \<open>L\<close> is the number of its leading
  \<open>#\<close>, and \<open>endLine\<close> is the index of the first later line that starts with between
  one and \<open>L\<close> characters \<open>#\<close>, or the number of lines when there is none; the section
  content is the lines from \<open>startLine\<close> up to, not including, \<open>endLine\<close>. For the
  document of the specification the locator returns lines 0 to 2 and the content
  \<open>## Timing Tracking\nfoo\<close>.
\<close>

theorem findTimingSection_contract:
  "(exists (findTimingSection txt) \<longrightarrow>
      (let lines = split_lines txt; info = findTimingSection txt;
           s = nat (startLine info); e = nat (endLine info); L = headerLevel info
       in 0 \<le> startLine info \<and> s < length lines
          \<and> isTimingHeader (lines ! s) \<and> (\<forall>j < s. \<not> isTimingHeader (lines ! j))
          \<and> L = hashes (lines ! s)
          \<and> s < e \<and> e \<le> length lines
          \<and> (\<forall>j. s < j \<and> j < e \<longrightarrow> \<not> (1 \<le> hashes (lines ! j) \<and> hashes (lines ! j) \<le> L))
          \<and> (e < length lines \<longrightarrow> 1 \<le> hashes (lines ! e) \<and> hashes (lines ! e) \<le> L)
          \<and> content info = join_lines (take (e - s) (drop s lines))))
   \<and> findTimingSection ''## Timing Tracking\<newline>foo\<newline>## Other\<newline>bar'' =
       \<lparr>exists = True, startLine = 0, endLine = 2,
        content = ''## Timing Tracking\<newline>foo'', headerLevel = 2\<rparr>"
proof (intro conjI impI)
  assume ex: "exists (findTimingSection txt)"
  then obtain s where s: "firstIndex isTimingHeader (split_lines txt) = Some s"
    by (cases "firstIndex isTimingHeader (split_lines txt)") (auto simp: findTimingSection_missing)
  let ?lines = "split_lines txt"
  let ?L = "hashes (?lines ! s)"
  let ?e = "sectionEnd ?L ?lines (s + 1)"
  note found = findTimingSection_found [OF s]
  from firstIndex_Some [OF s] have fs: "s < length ?lines" "isTimingHeader (?lines ! s)"
    "\<forall>j < s. \<not> isTimingHeader (?lines ! j)" by auto
  from fs(1) have le: "s + 1 \<le> length ?lines" by simp
  from sectionEnd_bounds [OF le, of ?L] have b: "s < ?e" "?e \<le> length ?lines"
    by simp_all
  have op: "\<forall>j. s < j \<and> j < ?e \<longrightarrow> \<not> closesLevel ?L (?lines ! j)"
    using sectionEnd_open [of "s + 1" _ ?L ?lines] by simp
  have cl: "?e < length ?lines \<longrightarrow> closesLevel ?L (?lines ! ?e)"
    using sectionEnd_closed [OF _ le] by blast
  show "let lines = split_lines txt; info = findTimingSection txt;
           s = nat (startLine info); e = nat (endLine info); L = headerLevel info
       in 0 \<le> startLine info \<and> s < length lines
          \<and> isTimingHeader (lines ! s) \<and> (\<forall>j < s. \<not> isTimingHeader (lines ! j))
          \<and> L = hashes (lines ! s)
          \<and> s < e \<and> e \<le> length lines
          \<and> (\<forall>j. s < j \<and> j < e \<longrightarrow> \<not> (1 \<le> hashes (lines ! j) \<and> hashes (lines ! j) \<le> L))
          \<and> (e < length lines \<longrightarrow> 1 \<le> hashes (lines ! e) \<and> hashes (lines ! e) \<le> L)
          \<and> content info = join_lines (take (e - s) (drop s lines))"
    unfolding Let_def found using fs b op cl
    by (simp add: closesLevel_def)
next
  show "findTimingSection ''## Timing Tracking\<newline>foo\<newline>## Other\<newline>bar'' =
       \<lparr>exists = True, startLine = 0, endLine = 2,
        content = ''## Timing Tracking\<newline>foo'', headerLevel = 2\<rparr>"
    by code_simp
qed


theorem findTimingSection_contract_witness:
  "exists (findTimingSection ''# A\<newline>### timing tracking\<newline>x\<newline>## B'')
   \<and> (let lines = split_lines ''# A\<newline>### timing tracking\<newline>x\<newline>## B'';
           info = findTimingSection ''# A\<newline>### timing tracking\<newline>x\<newline>## B'';
           s = nat (startLine info); e = nat (endLine info); L = headerLevel info
       in 0 \<le> startLine info \<and> s < length lines
          \<and> isTimingHeader (lines ! s) \<and> (\<forall>j < s. \<not> isTimingHeader (lines ! j))
          \<and> L = hashes (lines ! s)
          \<and> s < e \<and> e \<le> length lines
          \<and> (\<forall>j. s < j \<and> j < e \<longrightarrow> \<not> (1 \<le> hashes (lines ! j) \<and> hashes (lines ! j) \<le> L))
          \<and> (e < length lines \<longrightarrow> 1 \<le> hashes (lines ! e) \<and> hashes (lines ! e) \<le> L)
          \<and> content info = join_lines (take (e - s) (drop s lines)))"
proof -
  have h: "exists (findTimingSection ''# A\<newline>### timing tracking\<newline>x\<newline>## B'')"
    by code_simp
  show ?thesis
    by (rule conjI [OF h mp [OF conjunct1 [OF findTimingSection_contract] h]])
qed

section \<open>The transformer: aggregation and failures\<close>

lemma total_foldl:
  "totalTime (foldl addEntry sm es) = totalTime sm + sum_list (map duration es)"
  by (induction es arbitrary: sm) (simp_all add: addEntry_def)

lemma byApplication_foldl:
  "byApplication (foldl addEntry sm es) a =
     (if \<exists>e \<in> set es. application e = a
      then Some (getOr0 (byApplication sm) a
                 + sum_list (map duration (filter (\<lambda>e. application e = a) es)))
      else byApplication sm a)"
proof (induction es arbitrary: sm)
  case Nil
  show ?case by simp
next
  case (Cons e es)
  have ap: "byApplication (addEntry sm e) =
      (byApplication sm)(application e \<mapsto> getOr0 (byApplication sm) (application e) + duration e)"
    by (simp add: addEntry_def)
  show ?case
    unfolding foldl_Cons Cons.IH ap
    by (cases "byApplication sm a") (auto simp: getOr0_def)
qed

lemma byCategory_foldl:
  "byCategory (foldl addEntry sm es) c =
     (if c \<noteq> [] \<and> (\<exists>e \<in> set es. category e = Some c)
      then Some (getOr0 (byCategory sm) c
                 + sum_list (map duration (filter (\<lambda>e. category e = Some c) es)))
      else byCategory sm c)"
proof (induction es arbitrary: sm)
  case Nil
  show ?case by simp
next
  case (Cons e es)
  have ap: "byCategory (addEntry sm e) =
      (case category e of
         None \<Rightarrow> byCategory sm
       | Some k \<Rightarrow> if k = [] then byCategory sm
                   else (byCategory sm)(k \<mapsto> getOr0 (byCategory sm) k + duration e))"
    by (simp add: addEntry_def)
  show ?case
    unfolding foldl_Cons Cons.IH ap
    by (cases "byCategory sm c"; cases "category e") (auto simp: getOr0_def)
qed

lemma byHour_foldl:
  "byHour (foldl addEntry sm es) h =
     (if \<exists>e \<in> set es. extractHour (startTime e) = h
      then Some (getOr0 (byHour sm) h
                 + sum_list (map duration (filter (\<lambda>e. extractHour (startTime e) = h) es)))
      else byHour sm h)"
proof (induction es arbitrary: sm)
  case Nil
  show ?case by simp
next
  case (Cons e es)
  have ap: "byHour (addEntry sm e) =
      (byHour sm)(extractHour (startTime e) \<mapsto>
         getOr0 (byHour sm) (extractHour (startTime e)) + duration e)"
    by (simp add: addEntry_def)
  show ?case
    unfolding foldl_Cons Cons.IH ap
    by (cases "byHour sm h") (auto simp: getOr0_def)
qed

lemma getOrZero_asNumber:
  "getOrZero (map_option asNumber \<circ> m) k = asNumber (getOr0 m k)"
  by (cases "m k") (simp_all add: getOrZero_def getOr0_def asNumber_def orZero_def)

lemma plusNumber_asNumber: "plusNumber (asNumber a) (asNumber b) = asNumber (a + b)"
  by (simp add: asNumber_def)

lemma addNumberEntry_numberEntry:
  "addNumberEntry (numberSummary sm) (numberEntry e) = numberSummary (addEntry sm e)"
  by (cases "category e")
    (simp_all add: addNumberEntry_def numberSummary_def numberEntry_def addEntry_def
      getOrZero_asNumber plusNumber_asNumber)

lemma foldl_numberEntry:
  "foldl addNumberEntry (numberSummary sm) (map numberEntry es) =
     numberSummary (foldl addEntry sm es)"
  by (induction es arbitrary: sm) (simp_all add: addNumberEntry_numberEntry)

lemma emptyNumberSummary_numberSummary: "emptyNumberSummary = numberSummary emptySummary"
  by (simp add: emptyNumberSummary_def numberSummary_def emptySummary_def asNumber_def fun_eq_iff)

lemma twoEntries_transformed:
  "transformEntries pf twoEntries =
     [\<lparr>startTime = ''09:00:00'', endTime = ''09:30:00'', duration = Finite 1800,
       application = ''A'', category = None, title = None, productivity = None\<rparr>,
      \<lparr>startTime = ''10:00:00'', endTime = ''10:10:00'', duration = Finite 600,
       application = ''A'', category = None, title = None, productivity = None\<rparr>]"
  unfolding twoEntries_def by code_simp

lemma hours: "extractHour ''09:00:00'' = Some 9" "extractHour ''10:00:00'' = Some 10"
  by code_simp+



lemma transformEntries_drop:
  "transformEntry pf r = None \<Longrightarrow>
   transformEntries pf (xs @ r # ys) = transformEntries pf (xs @ ys)"
  by (simp add: transformEntries_def)

lemma transformEntries_sorted: "sorted (map startTime (transformEntries pf rs))"
  by (simp add: transformEntries_def)

lemma transformEntries_length:
  "length (transformEntries pf rs) = length (filter (\<lambda>r. transformEntry pf r \<noteq> None) rs)"
  by (simp add: transformEntries_def filter_map comp_def)

lemma validateRawEntry_ok:
  "validateRawEntry r = Inr u \<longleftrightarrow>
     (\<not> nullish r \<and> truthy (getProp r ''startTime'') \<and> truthy (getProp r ''endTime'')
      \<and> truthy (getProp r ''application'')
      \<and> (\<exists>n. getProp r ''duration'' = JNum n \<and> \<not> lessZero n))"
  by (auto simp: validateRawEntry_def split: jsval.splits)

lemma transformEntry_Some:
  "transformEntry pf r = Some e \<longleftrightarrow>
     (\<exists>st en d. validateRawEntry r = Inr () \<and> normalizeTime (getProp r ''startTime'') = Inr st
        \<and> normalizeTime (getProp r ''endTime'') = Inr en
        \<and> parseDuration (getProp r ''duration'') = Inr d
        \<and> e = \<lparr>startTime = st, endTime = en, duration = d,
               application = sanitizeString pf (getProp r ''application''),
               category = (if truthy (getProp r ''category'')
                           then Some (sanitizeString pf (getProp r ''category''))
                           else None),
               title = (if truthy (getProp r ''title'')
                        then Some (sanitizeString pf (getProp r ''title''))
                        else None),
               productivity = (if truthy (getProp r ''productivity'')
                               then parseProductivity (getProp r ''productivity'')
                               else None)\<rparr>)"
  by (auto simp: transformEntry_def transformEntryTry_def split: sum.splits)

lemma mathRound_nonneg: "0 \<le> x \<Longrightarrow> 0 \<le> mathRound x"
  by (simp add: mathRound_def)

lemma parseDuration_finite:
  "0 \<le> x \<Longrightarrow> parseDuration (JNum (Finite x)) = Inr (Finite (of_int \<lfloor>x + 1 / 2\<rfloor>))"
  using mathRound_nonneg [of x] by (simp add: parseDuration_def mathRound_def max_def)

lemma validateRawData_fails:
  "(\<exists>e. validateRawData rawData = Inl e) \<longleftrightarrow>
     (\<not> truthy rawData \<or> \<not> truthy (getProp rawData ''date'')
      \<or> \<not> (\<exists>s. dateText (getProp rawData ''date'') = Some s \<and> datePattern s \<and> dateParses s)
      \<or> \<not> isArray (getProp rawData ''entries''))"
  by (auto simp: validateRawData_def isValidDate_def split: option.splits)

lemma transformTimingData_fails:
  "(\<exists>e. transformTimingData pf rawData = Inl e) \<longleftrightarrow>
     (\<not> truthy rawData \<or> \<not> truthy (getProp rawData ''date'')
      \<or> \<not> (\<exists>s. dateText (getProp rawData ''date'') = Some s \<and> datePattern s \<and> dateParses s)
      \<or> \<not> isArray (getProp rawData ''entries''))"
proof -
  have "(\<exists>e. transformTimingData pf rawData = Inl e) \<longleftrightarrow> (\<exists>e. validateRawData rawData = Inl e)"
    by (auto simp: transformTimingData_def Let_def split: sum.splits)
  then show ?thesis
    by (simp only: validateRawData_fails)
qed

text \<open>
  Claim C7 against the code. \<open>isValidDate\<close> tests the pattern and asks the engine
  whether the text is a date; the engine takes any day from 01 to 31 in any month, so
  the payload for the thirtieth of February is not rejected: the transform returns
  a result for it. A day or a month out of those ranges, and a text that fails the
  pattern, are rejected. Among the entries, the one whose duration is \<open>NaN\<close> passes
  \<open>validateRawEntry\<close>, whose test \<open>duration < 0\<close> is false for it, and is kept with
  the duration \<open>NaN\<close>, which is no number of seconds. The rest of the claim holds on
  the example of the specification: of the three entries the one with the duration
  \<open>"abc"\<close> is dropped alone, and the two others come out sorted by start time.
\<close>

theorem calendar_invalid_date_accepted:
  "isValidDate (JStr ''2024-02-30'')
   \<and> transformTimingData pf februaryThirtieth =
       Inr \<lparr>date = JStr ''2024-02-30'', entries = [], summary = emptyNumberSummary\<rparr>
   \<and> \<not> isValidDate (JStr ''2024-02-32'')
   \<and> \<not> isValidDate (JStr ''2024-13-01'')
   \<and> \<not> isValidDate (JStr ''2024-2-30'')
   \<and> transformTimingData pf (JObj [(''date'', JStr ''2024-02-32''), (''entries'', JArr [])]) =
       Inl InvalidDateFormat
   \<and> transformEntries pf [nanEntry] =
       [\<lparr>startTime = ''09:00:00'', endTime = ''09:30:00'', duration = NaN,
         application = ''A'', category = None, title = None, productivity = None\<rparr>]
   \<and> map application
         (transformEntries pf (elements (getProp threeEntries ''entries''))) = [''A'', ''B'']
   \<and> map duration
         (transformEntries pf (elements (getProp threeEntries ''entries''))) =
       [Finite 1800, Finite 600]"
proof (intro conjI)
  show "isValidDate (JStr ''2024-02-30'')"
    by code_simp
  have v: "validateRawData februaryThirtieth = Inr ()"
    unfolding februaryThirtieth_def by code_simp
  have p: "getProp februaryThirtieth ''date'' = JStr ''2024-02-30''"
    "elements (getProp februaryThirtieth ''entries'') = []"
    by (simp_all add: februaryThirtieth_def)
  show "transformTimingData pf februaryThirtieth =
       Inr \<lparr>date = JStr ''2024-02-30'', entries = [], summary = emptyNumberSummary\<rparr>"
    by (simp add: transformTimingData_def v p transformEntries_def calculateNumberSummary_def)
  show "\<not> isValidDate (JStr ''2024-02-32'')"
    by code_simp
  show "\<not> isValidDate (JStr ''2024-13-01'')"
    by code_simp
  show "\<not> isValidDate (JStr ''2024-2-30'')"
    by code_simp
  have w: "validateRawData (JObj [(''date'', JStr ''2024-02-32''), (''entries'', JArr [])]) =
      Inl InvalidDateFormat"
    by code_simp
  show "transformTimingData pf (JObj [(''date'', JStr ''2024-02-32''), (''entries'', JArr [])]) =
       Inl InvalidDateFormat"
    by (simp only: transformTimingData_def w sum.case)
  show "transformEntries pf [nanEntry] =
       [\<lparr>startTime = ''09:00:00'', endTime = ''09:30:00'', duration = NaN,
         application = ''A'', category = None, title = None, productivity = None\<rparr>]"
    unfolding nanEntry_def by code_simp
  show "map application
         (transformEntries pf (elements (getProp threeEntries ''entries''))) = [''A'', ''B'']"
    unfolding threeEntries_def by code_simp
  show "map duration
         (transformEntries pf (elements (getProp threeEntries ''entries''))) =
       [Finite 1800, Finite 600]"
    unfolding threeEntries_def by code_simp
qed




section \<open>The synchroniser: empty documents, placement and the reflection\<close>

lemma findTimingSection_empty: "\<not> exists (findTimingSection [])"
  by (simp add: findTimingSection_def isTimingHeader_def hashes_def)

text \<open>
  Claim C5 against the code. Synchronising the empty document under the bottom
  policy returns two line ends, the rendered section and one more line end: the
  section is not alone in the result. (The operation is total: it returns a text
  for every input.)
\<close>

theorem empty_document_bottom:
  "updateTimingSection (st\<lparr>timingSectionLocation := Bottom\<rparr>) rd [] =
     [nl, nl] @ generateTimingContent (st\<lparr>timingSectionLocation := Bottom\<rparr>) rd None 2 @ [nl]
   \<and> updateTimingSection bottomNoReflection emptyDay [] =
       ''\<newline>\<newline>## Timing Tracking\<newline>\<newline>### Summary\<newline>\<newline>- **Total tracked time**: 0s\<newline>\<newline>### By Application\<newline>\<newline>*No application data available*\<newline>\<newline>\<newline>''
   \<and> generateTimingContent bottomNoReflection emptyDay None 2 =
       ''## Timing Tracking\<newline>\<newline>### Summary\<newline>\<newline>- **Total tracked time**: 0s\<newline>\<newline>### By Application\<newline>\<newline>*No application data available*\<newline>\<newline>''"
proof (intro conjI)
  show "updateTimingSection (st\<lparr>timingSectionLocation := Bottom\<rparr>) rd [] =
     [nl, nl] @ generateTimingContent (st\<lparr>timingSectionLocation := Bottom\<rparr>) rd None 2 @ [nl]"
    by (simp add: updateTimingSection_def findTimingSection_empty insertNewSection_def
        findInsertionPoint_def insertAtPosition_def endsWith_def startsWith_def)
  show "updateTimingSection bottomNoReflection emptyDay [] =
       ''\<newline>\<newline>## Timing Tracking\<newline>\<newline>### Summary\<newline>\<newline>- **Total tracked time**: 0s\<newline>\<newline>### By Application\<newline>\<newline>*No application data available*\<newline>\<newline>\<newline>''"
    by code_simp
  show "generateTimingContent bottomNoReflection emptyDay None 2 =
       ''## Timing Tracking\<newline>\<newline>### Summary\<newline>\<newline>- **Total tracked time**: 0s\<newline>\<newline>### By Application\<newline>\<newline>*No application data available*\<newline>\<newline>''"
    by code_simp
qed

text \<open>
  Claim C6 against the code. When the section of the named header runs to the end of
  the document, \<open>findAfterSpecificHeader\<close> returns the position behind the header line
  (9 in a document of 16 code units), and the new section lands between the header
  and its body. When another header closes the named section, the position is the
  start of that header and the new section follows the whole named section; when no
  line matches the name, the position is the end of the document.
\<close>

theorem after_header_open_section:
  "nameText tasksName = ''Tasks''
   \<and> findAfterSpecificHeader ''## Tasks\<newline>- a\<newline>- b'' tasksName = 9
   \<and> updateTimingSection afterTasks emptyDay ''## Tasks\<newline>- a\<newline>- b'' =
       ''## Tasks\<newline>\<newline>## Timing Tracking\<newline>\<newline>### Summary\<newline>\<newline>- **Total tracked time**: 0s\<newline>\<newline>### By Application\<newline>\<newline>*No application data available*\<newline>\<newline>\<newline>- a\<newline>- b''
   \<and> findAfterSpecificHeader ''## Tasks\<newline>- a\<newline>## Next'' tasksName = 13
   \<and> updateTimingSection afterTasks emptyDay ''## Tasks\<newline>- a\<newline>## Next'' =
       ''## Tasks\<newline>- a\<newline>\<newline>## Timing Tracking\<newline>\<newline>### Summary\<newline>\<newline>- **Total tracked time**: 0s\<newline>\<newline>### By Application\<newline>\<newline>*No application data available*\<newline>\<newline>\<newline>## Next''
   \<and> findAfterSpecificHeader ''# Day\<newline>text'' tasksName = length ''# Day\<newline>text''"
  by code_simp

lemma join3:
  "ys \<noteq> [] \<Longrightarrow>
   join_lines (xs @ ys @ zs) =
     (if xs = [] then [] else join_lines xs @ [nl]) @ join_lines ys
     @ (if zs = [] then [] else nl # join_lines zs)"
  by (cases "xs = []"; cases "zs = []") (simp_all add: join_append)

lemma update_replace:
  assumes "firstIndex isTimingHeader (split_lines txt) = Some s"
  shows "updateTimingSection st rd txt =
     join_lines
       (take s (split_lines txt)
        @ split_lines (generateTimingContent st rd
            (extractReflectionContent (content (findTimingSection txt)))
            (hashes (split_lines txt ! s)))
        @ drop (sectionEnd (hashes (split_lines txt ! s)) (split_lines txt) (Suc s))
            (split_lines txt))"
proof -
  note f = findTimingSection_found [OF assms]
  have sel: "exists (findTimingSection txt)" "startLine (findTimingSection txt) = int s"
    "endLine (findTimingSection txt) =
       int (sectionEnd (hashes (split_lines txt ! s)) (split_lines txt) (Suc s))"
    "headerLevel (findTimingSection txt) = hashes (split_lines txt ! s)"
    by (simp_all add: f)
  show ?thesis
    using sel
    by (simp add: updateTimingSection_def Let_def replaceExistingSection_def
        js_slice_0 js_slice_from_nat)
qed

lemma found_index:
  assumes "exists (findTimingSection txt)"
  obtains s where "firstIndex isTimingHeader (split_lines txt) = Some s"
  using assms
  by (cases "firstIndex isTimingHeader (split_lines txt)") (auto simp: findTimingSection_missing)

lemma trim_empty_iff: "trim b = [] \<longleftrightarrow> (\<forall>c \<in> set b. is_space c)"
proof
  assume "trim b = []"
  then have "dropWhile is_space (rev (dropWhile is_space b)) = []"
    by (simp add: trim_def)
  then have "\<forall>c \<in> set (dropWhile is_space b). is_space c"
    by (simp add: dropWhile_eq_Nil_conv)
  moreover have "\<forall>c \<in> set (takeWhile is_space b). is_space c"
    by (auto dest: set_takeWhileD)
  moreover have "set b = set (takeWhile is_space b) \<union> set (dropWhile is_space b)"
    by (metis set_append takeWhile_dropWhile_id)
  ultimately show "\<forall>c \<in> set b. is_space c" by auto
next
  assume "\<forall>c \<in> set b. is_space c"
  then show "trim b = []"
    by (auto simp: trim_def dest: set_dropWhileD)
qed

lemma generateTimingContent_reflection:
  "includeReflection st \<Longrightarrow>
   generateTimingContent st rd r lvl =
     generateTimingContent (st\<lparr>includeReflection := False\<rparr>) rd None lvl
     @ generateReflectionSection r (replicate (Suc lvl) (CHR ''#''))"
  by (simp add: generateTimingContent_def Let_def)

lemma generateTimingContent_no_reflection:
  "\<not> includeReflection st \<Longrightarrow>
   generateTimingContent st rd r lvl =
     generateTimingContent (st\<lparr>includeReflection := False\<rparr>) rd r' lvl"
  by (simp add: generateTimingContent_def Let_def)

lemma sublist_join_middle:
  "ys \<noteq> [] \<Longrightarrow> sublist (join_lines ys) (join_lines (xs @ ys @ zs))"
  unfolding join3 by (rule sublist_appendI)


lemma extract_via_body:
  "extractReflectionContent sc =
     (case reflectionBody sc of
        None \<Rightarrow> None
      | Some b \<Rightarrow> if trim b = [] then None else Some (trim b))"
  by (simp add: extractReflectionContent_def reflectionBody_def Let_def split: option.splits)

lemma update_replace_info:
  assumes "exists (findTimingSection txt)"
  shows "updateTimingSection st rd txt =
     join_lines
       (take (nat (startLine (findTimingSection txt))) (split_lines txt)
        @ split_lines (generateTimingContent st rd
            (extractReflectionContent (content (findTimingSection txt)))
            (headerLevel (findTimingSection txt)))
        @ drop (nat (endLine (findTimingSection txt))) (split_lines txt))"
proof -
  from assms obtain s where s: "firstIndex isTimingHeader (split_lines txt) = Some s"
    by (rule found_index)
  show ?thesis
    unfolding update_replace [OF s]
    by (simp add: findTimingSection_found [OF s])
qed

text \<open>
  What the replacement keeps. When the setting \<open>includeReflection\<close> is on, the
  document has the target section, and \<open>extractReflectionContent\<close> finds the
  reflection sub-header in it, with a raw text \<open>b\<close> that is not blank, then for every
  rendering the new document is the old one with the lines of the section replaced by
  the regenerated section, which ends with the reflection sub-header, an empty line,
  the trimmed text \<open>trim b\<close> and two line ends; so the trimmed text occurs verbatim in
  the result.
\<close>

lemma reflection_preserved:
  "exists (findTimingSection txt) \<and> includeReflection st
   \<and> reflectionBody (content (findTimingSection txt)) = Some b \<and> trim b \<noteq> []
   \<longrightarrow>
   (let info = findTimingSection txt; L = headerLevel info; lines = split_lines txt;
        G = generateTimingContent (st\<lparr>includeReflection := False\<rparr>) rd None L
            @ replicate (Suc L) (CHR ''#'') @ '' Reflection'' @ [nl, nl] @ trim b @ [nl, nl]
    in updateTimingSection st rd txt =
         join_lines (take (nat (startLine info)) lines @ split_lines G
                     @ drop (nat (endLine info)) lines)
       \<and> sublist (trim b) (updateTimingSection st rd txt))"
proof (intro impI)
  assume a: "exists (findTimingSection txt) \<and> includeReflection st
   \<and> reflectionBody (content (findTimingSection txt)) = Some b \<and> trim b \<noteq> []"
  let ?info = "findTimingSection txt"
  let ?G = "generateTimingContent (st\<lparr>includeReflection := False\<rparr>) rd None (headerLevel ?info)
            @ replicate (Suc (headerLevel ?info)) (CHR ''#'') @ '' Reflection'' @ [nl, nl]
            @ trim b @ [nl, nl]"
  from a have ex: "extractReflectionContent (content ?info) = Some (trim b)"
    by (simp add: extract_via_body)
  from a have gen: "generateTimingContent st rd (Some (trim b)) (headerLevel ?info) = ?G"
    by (simp add: generateTimingContent_reflection generateReflectionSection_def)
  from a have up: "updateTimingSection st rd txt =
      join_lines (take (nat (startLine ?info)) (split_lines txt) @ split_lines ?G
                  @ drop (nat (endLine ?info)) (split_lines txt))"
    by (simp only: update_replace_info ex gen)
  have "sublist ?G (updateTimingSection st rd txt)"
    unfolding up
    using sublist_join_middle [of "split_lines ?G"] by simp
  moreover have "sublist (trim b)
      ((generateTimingContent (st\<lparr>includeReflection := False\<rparr>) rd None (headerLevel ?info)
        @ replicate (Suc (headerLevel ?info)) (CHR ''#'') @ '' Reflection'' @ [nl, nl])
       @ trim b @ [nl, nl])"
    by (rule sublist_appendI)
  then have "sublist (trim b) ?G"
    by simp
  ultimately have "sublist (trim b) (updateTimingSection st rd txt)"
    using sublist_order.order_trans by blast
  with up show "let info = findTimingSection txt; L = headerLevel info; lines = split_lines txt;
        G = generateTimingContent (st\<lparr>includeReflection := False\<rparr>) rd None L
            @ replicate (Suc L) (CHR ''#'') @ '' Reflection'' @ [nl, nl] @ trim b @ [nl, nl]
    in updateTimingSection st rd txt =
         join_lines (take (nat (startLine info)) lines @ split_lines G
                     @ drop (nat (endLine info)) lines)
       \<and> sublist (trim b) (updateTimingSection st rd txt)"
    unfolding Let_def by simp
qed

text \<open>
  Claim C2 against the code. \<open>replaceExistingSection\<close> extracts the text of the
  reflection, to preserve it as its comment says, and hands it to
  \<open>generateTimingContent\<close>, which writes it only when the setting
  \<open>includeReflection\<close> is on: with the setting off the regenerated section has no
  reflection sub-section, and the text of the user is gone. With the setting on, the
  text is lost all the same in a section of depth 6: the sub-header that the
  synchroniser writes there has seven \<open>#\<close>, which the expression of
  \<open>extractReflectionContent\<close>, asking for two to six, does not match; the next
  synchronisation of the note puts the placeholder where the text of the user was.
\<close>

theorem reflection_text_lost:
  "reflectionBody (content (findTimingSection ''## Timing Tracking\<newline>### Reflection\<newline>my notes'')) = Some ''my notes''
   \<and> updateTimingSection bottomNoReflection emptyDay ''## Timing Tracking\<newline>### Reflection\<newline>my notes'' =
       ''## Timing Tracking\<newline>\<newline>### Summary\<newline>\<newline>- **Total tracked time**: 0s\<newline>\<newline>### By Application\<newline>\<newline>*No application data available*\<newline>\<newline>''
   \<and> \<not> sublist ''my notes''
         (updateTimingSection bottomNoReflection emptyDay ''## Timing Tracking\<newline>### Reflection\<newline>my notes'')
   \<and> updateTimingSection bottomWithReflection emptyDay ''###### Timing Tracking'' =
       ''###### Timing Tracking\<newline>\<newline>####### Summary\<newline>\<newline>- **Total tracked time**: 0s\<newline>\<newline>####### By Application\<newline>\<newline>*No application data available*\<newline>\<newline>####### Reflection\<newline>\<newline><!-- Add your daily time usage reflection here -->\<newline>\<newline>''
   \<and> extractReflectionContent (content (findTimingSection
         ''###### Timing Tracking\<newline>\<newline>####### Summary\<newline>\<newline>- **Total tracked time**: 0s\<newline>\<newline>####### By Application\<newline>\<newline>*No application data available*\<newline>\<newline>####### Reflection\<newline>\<newline>my notes\<newline>\<newline>'')) = None
   \<and> updateTimingSection bottomWithReflection emptyDay
         ''###### Timing Tracking\<newline>\<newline>####### Summary\<newline>\<newline>- **Total tracked time**: 0s\<newline>\<newline>####### By Application\<newline>\<newline>*No application data available*\<newline>\<newline>####### Reflection\<newline>\<newline>my notes\<newline>\<newline>'' =
       ''###### Timing Tracking\<newline>\<newline>####### Summary\<newline>\<newline>- **Total tracked time**: 0s\<newline>\<newline>####### By Application\<newline>\<newline>*No application data available*\<newline>\<newline>####### Reflection\<newline>\<newline><!-- Add your daily time usage reflection here -->\<newline>\<newline>''
   \<and> \<not> sublist ''my notes''
         (updateTimingSection bottomWithReflection emptyDay
            ''###### Timing Tracking\<newline>\<newline>####### Summary\<newline>\<newline>- **Total tracked time**: 0s\<newline>\<newline>####### By Application\<newline>\<newline>*No application data available*\<newline>\<newline>####### Reflection\<newline>\<newline>my notes\<newline>\<newline>'')"
proof (intro conjI)
  show "reflectionBody (content (findTimingSection ''## Timing Tracking\<newline>### Reflection\<newline>my notes'')) = Some ''my notes''"
    by code_simp
  show "updateTimingSection bottomNoReflection emptyDay ''## Timing Tracking\<newline>### Reflection\<newline>my notes'' =
       ''## Timing Tracking\<newline>\<newline>### Summary\<newline>\<newline>- **Total tracked time**: 0s\<newline>\<newline>### By Application\<newline>\<newline>*No application data available*\<newline>\<newline>''"
    by code_simp
  show "\<not> sublist ''my notes''
         (updateTimingSection bottomNoReflection emptyDay ''## Timing Tracking\<newline>### Reflection\<newline>my notes'')"
    by code_simp
  show "updateTimingSection bottomWithReflection emptyDay ''###### Timing Tracking'' =
       ''###### Timing Tracking\<newline>\<newline>####### Summary\<newline>\<newline>- **Total tracked time**: 0s\<newline>\<newline>####### By Application\<newline>\<newline>*No application data available*\<newline>\<newline>####### Reflection\<newline>\<newline><!-- Add your daily time usage reflection here -->\<newline>\<newline>''"
    by code_simp
  show "extractReflectionContent (content (findTimingSection
         ''###### Timing Tracking\<newline>\<newline>####### Summary\<newline>\<newline>- **Total tracked time**: 0s\<newline>\<newline>####### By Application\<newline>\<newline>*No application data available*\<newline>\<newline>####### Reflection\<newline>\<newline>my notes\<newline>\<newline>'')) = None"
    by code_simp
  show "updateTimingSection bottomWithReflection emptyDay
         ''###### Timing Tracking\<newline>\<newline>####### Summary\<newline>\<newline>- **Total tracked time**: 0s\<newline>\<newline>####### By Application\<newline>\<newline>*No application data available*\<newline>\<newline>####### Reflection\<newline>\<newline>my notes\<newline>\<newline>'' =
       ''###### Timing Tracking\<newline>\<newline>####### Summary\<newline>\<newline>- **Total tracked time**: 0s\<newline>\<newline>####### By Application\<newline>\<newline>*No application data available*\<newline>\<newline>####### Reflection\<newline>\<newline><!-- Add your daily time usage reflection here -->\<newline>\<newline>''"
    by code_simp
  show "\<not> sublist ''my notes''
         (updateTimingSection bottomWithReflection emptyDay
            ''###### Timing Tracking\<newline>\<newline>####### Summary\<newline>\<newline>- **Total tracked time**: 0s\<newline>\<newline>####### By Application\<newline>\<newline>*No application data available*\<newline>\<newline>####### Reflection\<newline>\<newline>my notes\<newline>\<newline>'')"
    by code_simp
qed





section \<open>The synchroniser: a second synchronisation\<close>

lemma hashes_replicate: "hashes (replicate n (CHR ''#'') @ CHR '' '' # s) = n"
  by (induction n) (simp_all add: hashes_def)

lemma hashes_headerLine: "hashes (headerLine lvl) = lvl"
  using hashes_replicate [of lvl "''Timing Tracking''"] by (simp add: headerLine_def)

lemma title_match:
  "ci_prefix ''timing'' (dropWhile is_space '' Timing Tracking'')
   \<and> ci_prefix ''tracking'' (dropWhile is_space (drop 6 (dropWhile is_space '' Timing Tracking'')))"
  by code_simp

lemma isTimingHeader_headerLine: "1 \<le> lvl \<Longrightarrow> lvl \<le> 6 \<Longrightarrow> isTimingHeader (headerLine lvl)"
proof -
  assume l: "1 \<le> lvl" "lvl \<le> 6"
  have d: "drop lvl (headerLine lvl) = '' Timing Tracking''"
    by (simp add: headerLine_def)
  show ?thesis
    unfolding isTimingHeader_def Let_def hashes_headerLine d
    using l title_match by simp
qed

lemma nl_notin_headerLine: "nl \<notin> set (headerLine lvl)"
proof -
  have "nl \<notin> set '' Timing Tracking''" by code_simp
  moreover have "nl \<noteq> CHR ''#''" by code_simp
  ultimately show ?thesis
    by (auto simp: headerLine_def)
qed

lemma generateTimingContent_head:
  "\<exists>rest. generateTimingContent st rd r lvl = headerLine lvl @ nl # nl # rest"
  by (simp add: generateTimingContent_def Let_def headerLine_def)

lemma split_generated:
  "\<exists>ls. split_lines (generateTimingContent st rd r lvl) = headerLine lvl # ls"
proof -
  obtain rest where "generateTimingContent st rd r lvl = headerLine lvl @ nl # nl # rest"
    using generateTimingContent_head by blast
  then show ?thesis
    by (simp add: split_append_nl [OF nl_notin_headerLine])
qed

lemma split_sandwich:
  assumes "\<forall>l \<in> set xs. nl \<notin> set l" and "\<forall>l \<in> set zs. nl \<notin> set l"
  shows "split_lines (join_lines (xs @ split_lines g @ zs)) = xs @ split_lines g @ zs"
proof (rule split_join)
  show "xs @ split_lines g @ zs \<noteq> []" by simp
  show "\<forall>l \<in> set (xs @ split_lines g @ zs). nl \<notin> set l"
    using assms by (auto dest: lines_no_nl)
qed

lemma take_lines_no_nl: "\<forall>l \<in> set (take n (split_lines t)). nl \<notin> set l"
  by (auto dest: in_set_takeD lines_no_nl)

lemma drop_lines_no_nl: "\<forall>l \<in> set (drop n (split_lines t)). nl \<notin> set l"
  by (auto dest: in_set_dropD lines_no_nl)

lemma firstIndex_at:
  assumes "\<forall>l \<in> set xs. \<not> p l" and "p y"
  shows "firstIndex p (xs @ y # ys) = Some (length xs)"
proof -
  from assms(1) have "firstIndex p xs = None"
    by (simp add: firstIndex_None)
  then show ?thesis
    using assms(2) by (simp add: firstIndex_append_None)
qed

lemma sectionEnd_sandwich:
  assumes "\<forall>l \<in> set gs. \<not> closesLevel lvl l"
    and "zs = [] \<or> closesLevel lvl (hd zs)"
  shows "sectionEnd lvl (xs @ g # gs @ zs) (Suc (length xs)) = length xs + Suc (length gs)"
proof -
  have d: "drop (Suc (length xs)) (xs @ g # gs @ zs) = gs @ zs" by simp
  from assms(1) have n: "firstIndex (closesLevel lvl) gs = None"
    by (simp add: firstIndex_None)
  show ?thesis
  proof (cases zs)
    case Nil
    with n show ?thesis
      by (simp add: sectionEnd_def d)
  next
    case (Cons z zs')
    with assms(2) have "closesLevel lvl z" by simp
    with Cons n show ?thesis
      by (simp add: sectionEnd_def d firstIndex_append_None)
  qed
qed


lemma replace_result_lines:
  assumes "firstIndex isTimingHeader (split_lines txt) = Some s"
  shows "split_lines (updateTimingSection st rd txt) =
     take s (split_lines txt)
     @ split_lines (generateTimingContent st rd
         (extractReflectionContent (content (findTimingSection txt)))
         (hashes (split_lines txt ! s)))
     @ drop (sectionEnd (hashes (split_lines txt ! s)) (split_lines txt) (Suc s))
         (split_lines txt)"
  unfolding update_replace [OF assms]
  by (rule split_sandwich [OF take_lines_no_nl drop_lines_no_nl])

lemma closing_line_after_section:
  assumes "s < length lines"
  shows "drop (sectionEnd lvl lines (Suc s)) lines = []
         \<or> closesLevel lvl (hd (drop (sectionEnd lvl lines (Suc s)) lines))"
proof (cases "sectionEnd lvl lines (Suc s) < length lines")
  case True
  from assms have "Suc s \<le> length lines" by simp
  from sectionEnd_closed [OF True this] True show ?thesis
    by (simp add: hd_drop_conv_nth)
next
  case False
  then show ?thesis by simp
qed

lemma second_locate:
  assumes s: "firstIndex isTimingHeader (split_lines txt) = Some s"
    and g: "g = generateTimingContent st rd
         (extractReflectionContent (content (findTimingSection txt)))
         (hashes (split_lines txt ! s))"
    and clean: "\<forall>l \<in> set (tl (split_lines g)). \<not> closesLevel (hashes (split_lines txt ! s)) l"
  shows "findTimingSection (updateTimingSection st rd txt) =
     \<lparr>exists = True, startLine = int s,
      endLine = int (s + length (split_lines g)),
      content = g, headerLevel = hashes (split_lines txt ! s)\<rparr>"
proof -
  let ?lines = "split_lines txt"
  let ?L = "hashes (?lines ! s)"
  let ?e = "sectionEnd ?L ?lines (Suc s)"
  let ?out = "updateTimingSection st rd txt"
  from firstIndex_Some [OF s] have fs: "s < length ?lines" "isTimingHeader (?lines ! s)"
    "\<forall>j < s. \<not> isTimingHeader (?lines ! j)" by auto
  from isTimingHeader_hashes [OF fs(2)] have L: "1 \<le> ?L" "?L \<le> 6" by auto
  obtain gs where gs: "split_lines g = headerLine ?L # gs"
    using split_generated g by blast
  have lines_out: "split_lines ?out = take s ?lines @ headerLine ?L # gs @ drop ?e ?lines"
    using replace_result_lines [OF s, of st rd] gs g by simp
  have len: "length (take s ?lines) = s"
    using fs(1) by simp
  have pre: "\<forall>l \<in> set (take s ?lines). \<not> isTimingHeader l"
    using fs(1,3) by (auto simp: in_set_conv_nth)
  have first: "firstIndex isTimingHeader (split_lines ?out) = Some s"
    unfolding lines_out
    using firstIndex_at [OF pre isTimingHeader_headerLine [OF L]] len by simp
  have at_s: "split_lines ?out ! s = headerLine ?L"
    unfolding lines_out using len by (simp add: nth_append)
  from clean gs have cl: "\<forall>l \<in> set gs. \<not> closesLevel ?L l" by simp
  have e2: "sectionEnd ?L (split_lines ?out) (Suc s) = s + Suc (length gs)"
    unfolding lines_out
    using sectionEnd_sandwich [OF cl closing_line_after_section [OF fs(1)], of "take s ?lines" "headerLine ?L"]
      len by simp
  have tk: "take (Suc (length gs)) (drop s (split_lines ?out)) = headerLine ?L # gs"
    unfolding lines_out using len by simp
  have jn: "join_lines (headerLine ?L # gs) = g"
    using join_split [of g] gs by simp
  have ln: "length (split_lines g) = Suc (length gs)"
    using gs by simp
  show ?thesis
    using tk jn
    by (simp add: findTimingSection_found [OF first] at_s hashes_headerLine e2 ln)
qed

lemma second_update:
  assumes s: "firstIndex isTimingHeader (split_lines txt) = Some s"
    and g: "g = generateTimingContent st rd
         (extractReflectionContent (content (findTimingSection txt)))
         (hashes (split_lines txt ! s))"
    and clean: "\<forall>l \<in> set (tl (split_lines g)). \<not> closesLevel (hashes (split_lines txt ! s)) l"
  shows "updateTimingSection st rd (updateTimingSection st rd txt) =
     join_lines
       (take s (split_lines txt)
        @ split_lines (generateTimingContent st rd (extractReflectionContent g)
            (hashes (split_lines txt ! s)))
        @ drop (sectionEnd (hashes (split_lines txt ! s)) (split_lines txt) (Suc s))
            (split_lines txt))"
proof -
  let ?lines = "split_lines txt"
  let ?L = "hashes (?lines ! s)"
  let ?e = "sectionEnd ?L ?lines (Suc s)"
  let ?out = "updateTimingSection st rd txt"
  note loc = second_locate [OF s g clean]
  from firstIndex_Some [OF s] have fs: "s < length ?lines" by auto
  have lines_out: "split_lines ?out = take s ?lines @ split_lines g @ drop ?e ?lines"
    using replace_result_lines [OF s, of st rd] g by simp
  have len: "length (take s ?lines) = s"
    using fs by simp
  have ex: "exists (findTimingSection ?out)"
    by (simp add: loc)
  have tk: "take s (split_lines ?out) = take s ?lines"
    unfolding lines_out using len by simp
  have dr: "drop (s + length (split_lines g)) (split_lines ?out) = drop ?e ?lines"
    unfolding lines_out using len by simp
  show ?thesis
    unfolding update_replace_info [OF ex] loc
    using tk dr by (simp add: nat_int_add)
qed

lemma placeholder_facts:
  "hashes placeholder = 0" "\<not> isReflectionHeader placeholder" "\<not> isReflectionHeader []"
  "trim (nl # placeholder @ [nl, nl]) = placeholder" "placeholder \<noteq> []"
  "nl \<notin> set placeholder" "nl \<notin> set '' Reflection''" "hashes [] = 0"
  by code_simp+

lemma hashes_reflectionHeaderLine: "hashes (reflectionHeaderLine lvl) = Suc lvl"
  using hashes_replicate [of "Suc lvl" "''Reflection''"] by (simp add: reflectionHeaderLine_def)

lemma nl_notin_reflectionHeaderLine: "nl \<notin> set (reflectionHeaderLine lvl)"
proof -
  have "nl \<noteq> CHR ''#''" by code_simp
  with placeholder_facts(7) show ?thesis
    by (auto simp: reflectionHeaderLine_def)
qed

lemma placeholder_tail_lines:
  "split_lines (reflectionHeaderLine lvl @ nl # nl # placeholder @ [nl, nl]) =
     [reflectionHeaderLine lvl, [], placeholder, [], []]"
proof -
  have "split_lines (placeholder @ nl # [nl]) = placeholder # split_lines [nl]"
    by (rule split_append_nl [OF placeholder_facts(6)])
  then have p: "split_lines (placeholder @ [nl, nl]) = [placeholder, [], []]"
    by simp
  have "split_lines (reflectionHeaderLine lvl @ nl # (nl # placeholder @ [nl, nl])) =
      reflectionHeaderLine lvl # split_lines (nl # placeholder @ [nl, nl])"
    by (rule split_append_nl [OF nl_notin_reflectionHeaderLine])
  with p show ?thesis by simp
qed

lemma generated_with_placeholder:
  assumes "includeReflection st"
  shows "generateTimingContent st rd None lvl =
     generateTimingContent (st\<lparr>includeReflection := False\<rparr>) rd None lvl
     @ reflectionHeaderLine lvl @ nl # nl # placeholder @ [nl, nl]"
  using assms
  by (simp add: generateTimingContent_reflection generateReflectionSection_def
      reflectionHeaderLine_def)

lemma generated_lines:
  assumes "includeReflection st"
    and "generateTimingContent (st\<lparr>includeReflection := False\<rparr>) rd None lvl = m @ [nl]"
  shows "split_lines (generateTimingContent st rd None lvl) =
     split_lines m @ [reflectionHeaderLine lvl, [], placeholder, [], []]"
proof -
  have "generateTimingContent st rd None lvl =
      m @ nl # (reflectionHeaderLine lvl @ nl # nl # placeholder @ [nl, nl])"
    using generated_with_placeholder [OF assms(1)] assms(2) by simp
  then have "split_lines (generateTimingContent st rd None lvl) =
      split_lines m @ split_lines (reflectionHeaderLine lvl @ nl # nl # placeholder @ [nl, nl])"
    by (simp only: split_append_nl_gen [of m])
  then show ?thesis
    by (simp only: placeholder_tail_lines)
qed

lemma extract_generated:
  assumes inc: "includeReflection st" and wr: "wellRendered st rd lvl"
  shows "extractReflectionContent (generateTimingContent st rd None lvl) = None
         \<or> extractReflectionContent (generateTimingContent st rd None lvl) = Some placeholder"
proof -
  let ?body = "generateTimingContent (st\<lparr>includeReflection := False\<rparr>) rd None lvl"
  from wr inc have e: "endsWith ?body [nl]"
    and nr: "\<forall>l \<in> set (split_lines ?body). \<not> isReflectionHeader l"
    by (simp_all add: wellRendered_def Let_def)
  from e obtain m where m: "?body = m @ [nl]"
    by (auto simp: endsWith_def suffix_def)
  have sb: "split_lines ?body = split_lines m @ [[]]"
    unfolding m using split_append_nl_gen [of m "[]"] by simp
  with nr have nm: "\<forall>l \<in> set (split_lines m). \<not> isReflectionHeader l"
    by simp
  then have none_m: "firstIndex isReflectionHeader (split_lines m) = None"
    by (simp add: firstIndex_None)
  let ?lines = "split_lines m @ [reflectionHeaderLine lvl, [], placeholder, [], []]"
  have gl: "split_lines (generateTimingContent st rd None lvl) = ?lines"
    by (rule generated_lines [OF inc m])
  show ?thesis
  proof (cases "isReflectionHeader (reflectionHeaderLine lvl)")
    case False
    then have "firstIndex isReflectionHeader ?lines = None"
      using nm placeholder_facts(2,3) by (simp add: firstIndex_None)
    then show ?thesis
      by (simp add: extractReflectionContent_def gl)
  next
    case True
    let ?rs = "length (split_lines m)"
    have fi: "firstIndex isReflectionHeader ?lines = Some ?rs"
      using firstIndex_at [OF nm True] by simp
    have at: "?lines ! ?rs = reflectionHeaderLine lvl"
      by simp
    have dr: "drop (Suc ?rs) ?lines = [[], placeholder, [], []]"
      by simp
    have "firstIndex (closesLevel (Suc lvl)) [[], placeholder, [], []] = None"
      by (simp add: firstIndex_None closesLevel_def placeholder_facts)
    then have se: "sectionEnd (Suc lvl) ?lines (Suc ?rs) = ?rs + 5"
      by (simp add: sectionEnd_def dr)
    have "js_slice ?lines (int (Suc ?rs)) (int (?rs + 5)) = [[], placeholder, [], []]"
      using js_slice_nat [of "Suc ?rs" "?rs + 5" ?lines] by simp
    moreover have "int (Suc ?rs) = int ?rs + 1" by simp
    ultimately have sl: "js_slice ?lines (int ?rs + 1) (int (?rs + 5)) = [[], placeholder, [], []]"
      by (simp only:)
    have "extractReflectionContent (generateTimingContent st rd None lvl) = Some placeholder"
      unfolding extractReflectionContent_def gl Let_def
      using fi at se sl placeholder_facts(4,5)
      by (simp add: hashes_reflectionHeaderLine)
    then show ?thesis by simp
  qed
qed

lemma regenerate_same:
  assumes wr: "wellRendered st rd lvl"
  shows "generateTimingContent st rd
           (extractReflectionContent (generateTimingContent st rd None lvl)) lvl =
         generateTimingContent st rd None lvl"
proof (cases "includeReflection st")
  case False
  have "generateTimingContent st rd
           (extractReflectionContent (generateTimingContent st rd None lvl)) lvl =
        generateTimingContent (st\<lparr>includeReflection := False\<rparr>) rd None lvl"
    by (rule generateTimingContent_no_reflection [OF False])
  also have "\<dots> = generateTimingContent st rd None lvl"
    by (rule generateTimingContent_no_reflection [OF False, symmetric])
  finally show ?thesis .
next
  case True
  from extract_generated [OF True wr] show ?thesis
  proof
    assume a: "extractReflectionContent (generateTimingContent st rd None lvl) = None"
    show ?thesis unfolding a ..
  next
    assume a: "extractReflectionContent (generateTimingContent st rd None lvl) = Some placeholder"
    show ?thesis
      unfolding a
      by (simp add: generateTimingContent_reflection [OF True] generateReflectionSection_def
          placeholder_facts(5))
  qed
qed

lemma clean_generated:
  assumes wr: "wellRendered st rd lvl"
  shows "\<forall>l \<in> set (tl (split_lines (generateTimingContent st rd None lvl))). \<not> closesLevel lvl l"
proof (cases "includeReflection st")
  case False
  from wr have "\<forall>l \<in> set (tl (split_lines
      (generateTimingContent (st\<lparr>includeReflection := False\<rparr>) rd None lvl))). \<not> closesLevel lvl l"
    by (simp add: wellRendered_def Let_def)
  then show ?thesis
    by (simp only: generateTimingContent_no_reflection [OF False, of rd None lvl None])
next
  case True
  let ?body = "generateTimingContent (st\<lparr>includeReflection := False\<rparr>) rd None lvl"
  from wr True have e: "endsWith ?body [nl]"
    and cb: "\<forall>l \<in> set (tl (split_lines ?body)). \<not> closesLevel lvl l"
    by (simp_all add: wellRendered_def Let_def)
  from e obtain m where m: "?body = m @ [nl]"
    by (auto simp: endsWith_def suffix_def)
  have sb: "split_lines ?body = split_lines m @ [[]]"
    unfolding m using split_append_nl_gen [of m "[]"] by simp
  have "tl (split_lines ?body) = tl (split_lines m) @ [[]]"
    unfolding sb by (cases "split_lines m") simp_all
  with cb have cm: "\<forall>l \<in> set (tl (split_lines m)). \<not> closesLevel lvl l"
    by simp
  have tg: "tl (split_lines (generateTimingContent st rd None lvl)) =
      tl (split_lines m) @ [reflectionHeaderLine lvl, [], placeholder, [], []]"
    unfolding generated_lines [OF True m] by (cases "split_lines m") simp_all
  show ?thesis
    unfolding tg using cm
    by (auto simp: closesLevel_def hashes_reflectionHeaderLine placeholder_facts)
qed




section \<open>The synchroniser: one section per title\<close>

lemma unique_match:
  "length (filter p xs) \<le> 1 \<Longrightarrow> i < length xs \<Longrightarrow> p (xs ! i) \<Longrightarrow> j < length xs \<Longrightarrow> j \<noteq> i
   \<Longrightarrow> \<not> p (xs ! j)"
proof (induction xs arbitrary: i j)
  case Nil
  then show ?case by simp
next
  case (Cons x xs)
  show ?case
  proof (cases i)
    case 0
    with Cons.prems have "filter p xs = []" by simp
    then have "\<forall>y \<in> set xs. \<not> p y"
      by (simp add: filter_empty_conv)
    moreover from 0 Cons.prems obtain j' where "j = Suc j'" "j' < length xs"
      by (cases j) auto
    ultimately show ?thesis by simp
  next
    case (Suc i')
    with Cons.prems have pi: "i' < length xs" "p (xs ! i')" by auto
    then have "xs ! i' \<in> set (filter p xs)" by simp
    then have "1 \<le> length (filter p xs)"
      by (cases "filter p xs") auto
    with Cons.prems(1) have nx: "\<not> p x" and le: "length (filter p xs) \<le> 1"
      by (auto split: if_splits)
    show ?thesis
    proof (cases j)
      case 0
      with nx show ?thesis by simp
    next
      case (Suc j')
      with Cons.prems \<open>i = Suc i'\<close> have "j' < length xs" "j' \<noteq> i'" by auto
      from Cons.IH [OF le pi this] Suc show ?thesis by simp
    qed
  qed
qed

lemma split_at_line_start:
  assumes "0 < p" and "p < length txt" and "txt ! (p - 1) = nl"
  shows "take p txt = take (p - 1) txt @ [nl]"
    and "split_lines txt = split_lines (take (p - 1) txt) @ split_lines (drop p txt)"
proof -
  from assms(1,2) have lt: "p - 1 < length txt" and sp: "Suc (p - 1) = p" by simp_all
  from take_Suc_conv_app_nth [OF lt] assms(3) sp
  show "take p txt = take (p - 1) txt @ [nl]" by simp
  from id_take_nth_drop [OF lt] assms(3) sp
  have "txt = take (p - 1) txt @ nl # drop p txt" by simp
  then have "split_lines txt = split_lines (take (p - 1) txt @ nl # drop p txt)" by simp
  then show "split_lines txt = split_lines (take (p - 1) txt) @ split_lines (drop p txt)"
    by (simp only: split_append_nl_gen)
qed

lemma lineStart_take:
  assumes "lineStart p txt"
  shows "set (split_lines (take p txt)) \<subseteq> insert [] (set (split_lines txt))"
proof -
  consider (zero) "p = 0" | (beyond) "length txt \<le> p"
    | (inside) "0 < p \<and> p < length txt \<and> txt ! (p - 1) = nl"
    using assms by (cases "p = 0"; cases "length txt \<le> p") (auto simp: lineStart_def)
  then show ?thesis
  proof cases
    case zero
    then show ?thesis by simp
  next
    case beyond
    then show ?thesis by auto
  next
    case inside
    then have i: "0 < p" "p < length txt" "txt ! (p - 1) = nl" by auto
    have "split_lines (take p txt) = split_lines (take (p - 1) txt) @ [[]]"
      unfolding split_at_line_start(1) [OF i]
      using split_append_nl_gen [of "take (p - 1) txt" "[]"] by simp
    with split_at_line_start(2) [OF i] show ?thesis by auto
  qed
qed

lemma lineStart_drop:
  assumes "lineStart p txt"
  shows "set (split_lines (drop p txt)) \<subseteq> insert [] (set (split_lines txt))"
proof -
  consider (zero) "p = 0" | (beyond) "length txt \<le> p"
    | (inside) "0 < p \<and> p < length txt \<and> txt ! (p - 1) = nl"
    using assms by (cases "p = 0"; cases "length txt \<le> p") (auto simp: lineStart_def)
  then show ?thesis
  proof cases
    case zero
    then show ?thesis by auto
  next
    case beyond
    then show ?thesis by simp
  next
    case inside
    then have i: "0 < p" "p < length txt" "txt ! (p - 1) = nl" by auto
    from split_at_line_start(2) [OF i] show ?thesis by auto
  qed
qed

lemma lineStart_join_take:
  assumes "1 \<le> k"
  shows "lineStart (length (join_lines (take k (split_lines txt))) + 1) txt"
proof (cases "k < length (split_lines txt)")
  case False
  then have "take k (split_lines txt) = split_lines txt" by simp
  then show ?thesis
    by (simp add: lineStart_def)
next
  case True
  with assms have ne: "take k (split_lines txt) \<noteq> []" "drop k (split_lines txt) \<noteq> []"
    by auto
  have "txt = join_lines (take k (split_lines txt) @ drop k (split_lines txt))"
    by simp
  then have "txt = join_lines (take k (split_lines txt)) @ nl # join_lines (drop k (split_lines txt))"
    by (simp only: join_append [OF ne])
  then have "txt ! length (join_lines (take k (split_lines txt))) = nl"
    by (metis nth_append_length)
  then show ?thesis
    by (simp add: lineStart_def)
qed

lemma lineStart_after_line: "lineStart (length (join_lines (js_slice (split_lines txt) 0 (int i + 1))) + 1) txt"
proof -
  have "int i + 1 = int (Suc i)" by simp
  then have "js_slice (split_lines txt) 0 (int i + 1) = take (Suc i) (split_lines txt)"
    by (simp only: js_slice_0)
  then show ?thesis
    using lineStart_join_take [of "Suc i" "txt"] by simp
qed

lemma lineStart_findAfterTitle: "lineStart (findAfterTitle txt) txt"
proof (cases "firstIndex (\<lambda>l. take 2 l = ''# '') (split_lines txt)")
  case None
  then show ?thesis
    by (simp add: findAfterTitle_def lineStart_def)
next
  case (Some i)
  then have "findAfterTitle txt =
      length (join_lines (js_slice (split_lines txt) 0 (int i + 1))) + 1"
    by (simp add: findAfterTitle_def)
  then show ?thesis
    by (simp only: lineStart_after_line)
qed

lemma lineStart_findAfterSpecificHeader: "lineStart (findAfterSpecificHeader txt name) txt"
proof (cases "firstIndex (isNamedHeader name) (split_lines txt)")
  case None
  then show ?thesis
    by (simp add: findAfterSpecificHeader_def lineStart_def)
next
  case (Some i)
  note i = Some
  let ?lines = "split_lines txt"
  let ?lvl = "if 1 \<le> hashes (?lines ! i) then hashes (?lines ! i) else 2"
  show ?thesis
  proof (cases "firstIndex (closesLevel ?lvl) (drop (i + 1) ?lines)")
    case None
    with i have "findAfterSpecificHeader txt name =
        length (join_lines (js_slice ?lines 0 (int i + 1))) + 1"
      by (simp add: findAfterSpecificHeader_def Let_def)
    then show ?thesis
      by (simp only: lineStart_after_line)
  next
    case (Some k)
    with i have "findAfterSpecificHeader txt name =
        length (join_lines (js_slice ?lines 0 (int (i + 1 + k)))) + 1"
      by (simp add: findAfterSpecificHeader_def Let_def)
    then have "findAfterSpecificHeader txt name =
        length (join_lines (take (i + 1 + k) ?lines)) + 1"
      by (simp only: js_slice_0)
    then show ?thesis
      using lineStart_join_take [of "i + 1 + k" "txt"] by simp
  qed
qed

lemma lineStart_findInsertionPoint: "lineStart (findInsertionPoint st txt) txt"
  by (cases "timingSectionLocation st")
    (simp_all add: findInsertionPoint_def lineStart_findAfterTitle
      lineStart_findAfterSpecificHeader, simp_all add: lineStart_def)

lemma insertAtPosition_form:
  "\<exists>p' s'. insertAtPosition doc p w = p' @ nl # w @ nl # s'
     \<and> set (split_lines p') \<subseteq> insert [] (set (split_lines (take p doc)))
     \<and> set (split_lines s') \<subseteq> insert [] (set (split_lines (drop p doc)))"
proof -
  let ?b = "take p doc"
  let ?a = "drop p doc"
  let ?spacing = "if endsWith ?b [nl, nl] then [] else if endsWith ?b [nl] then [nl] else [nl, nl]"
  let ?endSpacing = "if startsWith ?a [nl] then [] else [nl]"
  have pre: "\<exists>p'. ?b @ ?spacing = p' @ [nl]
      \<and> set (split_lines p') \<subseteq> insert [] (set (split_lines ?b))"
  proof (cases "endsWith ?b [nl, nl]")
    case True
    then obtain c where c: "?b = c @ [nl, nl]"
      by (auto simp: endsWith_def suffix_def)
    have "split_lines ?b = split_lines (c @ [nl]) @ [[]]"
      unfolding c using split_append_nl_gen [of "c @ [nl]" "[]"] by simp
    then have "set (split_lines (c @ [nl])) \<subseteq> insert [] (set (split_lines ?b))"
      by auto
    moreover have "?b @ ?spacing = (c @ [nl]) @ [nl]"
      using True c by simp
    ultimately show ?thesis by blast
  next
    case False
    note nn = False
    show ?thesis
    proof (cases "endsWith ?b [nl]")
      case True
      with nn have "?b @ ?spacing = ?b @ [nl]" by simp
      then show ?thesis by blast
    next
      case False
      have "split_lines (?b @ [nl]) = split_lines ?b @ [[]]"
        using split_append_nl_gen [of ?b "[]"] by simp
      then have "set (split_lines (?b @ [nl])) \<subseteq> insert [] (set (split_lines ?b))"
        by auto
      moreover from nn False have "?b @ ?spacing = (?b @ [nl]) @ [nl]" by simp
      ultimately show ?thesis by blast
    qed
  qed
  have post: "\<exists>s'. ?endSpacing @ ?a = nl # s'
      \<and> set (split_lines s') \<subseteq> insert [] (set (split_lines ?a))"
  proof (cases "startsWith ?a [nl]")
    case True
    then obtain c where c: "?a = nl # c"
      by (auto simp: startsWith_def prefix_def)
    have "split_lines ?a = [] # split_lines c"
      unfolding c by simp
    then have "set (split_lines c) \<subseteq> insert [] (set (split_lines ?a))"
      by auto
    moreover from True c have "?endSpacing @ ?a = nl # c" by simp
    ultimately show ?thesis by blast
  next
    case False
    then have "?endSpacing @ ?a = nl # ?a" by simp
    then show ?thesis by blast
  qed
  from pre obtain p' where p': "?b @ ?spacing = p' @ [nl]"
    "set (split_lines p') \<subseteq> insert [] (set (split_lines ?b))" by blast
  from post obtain s' where s': "?endSpacing @ ?a = nl # s'"
    "set (split_lines s') \<subseteq> insert [] (set (split_lines ?a))" by blast
  have "insertAtPosition doc p w = (?b @ ?spacing) @ w @ (?endSpacing @ ?a)"
    by (simp add: insertAtPosition_def Let_def)
  also have "\<dots> = p' @ nl # w @ nl # s'"
    unfolding p'(1) s'(1) by simp
  finally show ?thesis
    using p'(2) s'(2) by blast
qed

lemma not_header_empty: "\<not> isTimingHeader []"
  by (simp add: isTimingHeader_def hashes_def)

lemma insert_result_lines:
  assumes "\<forall>l \<in> set (split_lines doc). \<not> isTimingHeader l"
  shows "\<exists>pre post.
     split_lines (insertAtPosition doc (findInsertionPoint st doc) w) = pre @ split_lines w @ post
     \<and> (\<forall>l \<in> set pre \<union> set post. \<not> isTimingHeader l)"
proof -
  let ?p = "findInsertionPoint st doc"
  obtain p' s' where f: "insertAtPosition doc ?p w = p' @ nl # w @ nl # s'"
    and sp: "set (split_lines p') \<subseteq> insert [] (set (split_lines (take ?p doc)))"
    and ss: "set (split_lines s') \<subseteq> insert [] (set (split_lines (drop ?p doc)))"
    using insertAtPosition_form by blast
  note ls = lineStart_findInsertionPoint [of st doc]
  from sp lineStart_take [OF ls] have "set (split_lines p') \<subseteq> insert [] (set (split_lines doc))"
    by blast
  with assms not_header_empty have a: "\<forall>l \<in> set (split_lines p'). \<not> isTimingHeader l"
    by blast
  from ss lineStart_drop [OF ls] have "set (split_lines s') \<subseteq> insert [] (set (split_lines doc))"
    by blast
  with assms not_header_empty have b: "\<forall>l \<in> set (split_lines s'). \<not> isTimingHeader l"
    by blast
  have "split_lines (p' @ nl # (w @ nl # s')) = split_lines p' @ split_lines (w @ nl # s')"
    by (rule split_append_nl_gen)
  also have "split_lines (w @ nl # s') = split_lines w @ split_lines s'"
    by (rule split_append_nl_gen)
  finally have "split_lines (insertAtPosition doc ?p w) =
      split_lines p' @ split_lines w @ split_lines s'"
    unfolding f by simp
  with a b show ?thesis by blast
qed

lemma located_written:
  assumes out: "split_lines out = pre @ split_lines (generateTimingContent st rd r lvl) @ post"
    and lvl: "1 \<le> lvl" "lvl \<le> 6"
    and pre: "\<forall>l \<in> set pre. \<not> isTimingHeader l"
    and post: "\<forall>l \<in> set post. \<not> isTimingHeader l"
    and body: "\<forall>l \<in> set (tl (split_lines (generateTimingContent st rd r lvl))). \<not> isTimingHeader l"
  shows "exists (findTimingSection out)
     \<and> startLine (findTimingSection out) = int (length pre)
     \<and> headerLevel (findTimingSection out) = lvl
     \<and> hd (split_lines (generateTimingContent st rd r lvl)) = headerLine lvl
     \<and> length (filter isTimingHeader (split_lines out)) = 1"
proof -
  obtain gs where gs: "split_lines (generateTimingContent st rd r lvl) = headerLine lvl # gs"
    using split_generated by blast
  note h = isTimingHeader_headerLine [OF lvl]
  have lines: "split_lines out = pre @ headerLine lvl # gs @ post"
    using out gs by simp
  have first: "firstIndex isTimingHeader (split_lines out) = Some (length pre)"
    unfolding lines by (rule firstIndex_at [OF pre h])
  have at: "split_lines out ! length pre = headerLine lvl"
    unfolding lines by simp
  from body gs have "filter isTimingHeader gs = []"
    by (simp add: filter_empty_conv)
  moreover from pre have "filter isTimingHeader pre = []"
    by (simp add: filter_empty_conv)
  moreover from post have "filter isTimingHeader post = []"
    by (simp add: filter_empty_conv)
  ultimately have cnt: "length (filter isTimingHeader (split_lines out)) = 1"
    unfolding lines using h by simp
  show ?thesis
    using cnt gs
    by (simp add: findTimingSection_found [OF first] at hashes_headerLine)
qed

text \<open>
  Claim C3, amended. For a note with at most one line matching the title, and provided
  no line of the section written, other than its header, matches the title (which can
  only come from re-injected reflection text or from the rendered data), the lines of
  the result are lines without a match, then the lines of the section written, then
  lines without a match; the locator finds the section at the header just written,
  with its depth; and exactly one line of the result matches. In any document the
  locator recognises the first matching line only, whatever its depth from 1 to 6.
\<close>

theorem single_section:
  "(length (filter isTimingHeader (split_lines txt)) \<le> 1
    \<and> (\<forall>l \<in> set (tl (split_lines (writtenSection st rd txt))). \<not> isTimingHeader l)
    \<longrightarrow> (\<exists>pre post.
          split_lines (updateTimingSection st rd txt) =
            pre @ split_lines (writtenSection st rd txt) @ post
          \<and> (\<forall>l \<in> set pre \<union> set post. \<not> isTimingHeader l)
          \<and> exists (findTimingSection (updateTimingSection st rd txt))
          \<and> startLine (findTimingSection (updateTimingSection st rd txt)) = int (length pre)
          \<and> headerLevel (findTimingSection (updateTimingSection st rd txt)) =
              hashes (hd (split_lines (writtenSection st rd txt)))
          \<and> length (filter isTimingHeader (split_lines (updateTimingSection st rd txt))) = 1))
   \<and> (exists (findTimingSection doc) \<longrightarrow>
        (let i = nat (startLine (findTimingSection doc))
         in i < length (split_lines doc) \<and> isTimingHeader (split_lines doc ! i)
            \<and> (\<forall>j < i. \<not> isTimingHeader (split_lines doc ! j))
            \<and> headerLevel (findTimingSection doc) = hashes (split_lines doc ! i)
            \<and> 1 \<le> headerLevel (findTimingSection doc)
            \<and> headerLevel (findTimingSection doc) \<le> 6))"
proof (rule conjI; rule impI)
  assume a: "length (filter isTimingHeader (split_lines txt)) \<le> 1
    \<and> (\<forall>l \<in> set (tl (split_lines (writtenSection st rd txt))). \<not> isTimingHeader l)"
  let ?out = "updateTimingSection st rd txt"
  let ?w = "writtenSection st rd txt"
  let ?lines = "split_lines txt"
  show "\<exists>pre post.
          split_lines ?out = pre @ split_lines ?w @ post
          \<and> (\<forall>l \<in> set pre \<union> set post. \<not> isTimingHeader l)
          \<and> exists (findTimingSection ?out)
          \<and> startLine (findTimingSection ?out) = int (length pre)
          \<and> headerLevel (findTimingSection ?out) = hashes (hd (split_lines ?w))
          \<and> length (filter isTimingHeader (split_lines ?out)) = 1"
  proof (cases "firstIndex isTimingHeader ?lines")
    case None
    then have ne: "\<not> exists (findTimingSection txt)"
      by (simp add: findTimingSection_missing)
    then have w: "?w = generateTimingContent st rd None 2"
      by (simp add: writtenSection_def)
    from ne have o: "?out = insertAtPosition txt (findInsertionPoint st txt) ?w"
      by (simp add: updateTimingSection_def insertNewSection_def w)
    from None have "\<forall>l \<in> set ?lines. \<not> isTimingHeader l"
      by (simp add: firstIndex_None)
    from insert_result_lines [OF this, of st ?w] obtain pre post
      where pp: "split_lines ?out = pre @ split_lines ?w @ post"
        "\<forall>l \<in> set pre \<union> set post. \<not> isTimingHeader l"
      unfolding o [symmetric] by blast
    from a have body: "\<forall>l \<in> set (tl (split_lines (generateTimingContent st rd None 2))).
        \<not> isTimingHeader l"
      unfolding w by simp
    from pp(2) have p1: "\<forall>l \<in> set pre. \<not> isTimingHeader l"
      and p2: "\<forall>l \<in> set post. \<not> isTimingHeader l" by auto
    have "exists (findTimingSection ?out)
        \<and> startLine (findTimingSection ?out) = int (length pre)
        \<and> headerLevel (findTimingSection ?out) = 2
        \<and> hd (split_lines (generateTimingContent st rd None 2)) = headerLine 2
        \<and> length (filter isTimingHeader (split_lines ?out)) = 1"
      by (rule located_written [OF pp(1) [unfolded w] _ _ p1 p2 body]) simp_all
    with pp show ?thesis
      unfolding w by (auto simp: hashes_headerLine)
  next
    case (Some s)
    let ?L = "hashes (?lines ! s)"
    let ?e = "sectionEnd ?L ?lines (Suc s)"
    from firstIndex_Some [OF Some] have fs: "s < length ?lines" "isTimingHeader (?lines ! s)"
      "\<forall>j < s. \<not> isTimingHeader (?lines ! j)" by auto
    from isTimingHeader_hashes [OF fs(2)] have L: "1 \<le> ?L" "?L \<le> 6" by auto
    have w: "?w = generateTimingContent st rd
        (extractReflectionContent (content (findTimingSection txt))) ?L"
      by (simp add: writtenSection_def findTimingSection_found [OF Some])
    have lines_out: "split_lines ?out = take s ?lines @ split_lines ?w @ drop ?e ?lines"
      unfolding w by (rule replace_result_lines [OF Some])
    have p1: "\<forall>l \<in> set (take s ?lines). \<not> isTimingHeader l"
      using fs(1,3) by (auto simp: in_set_conv_nth)
    have "Suc s \<le> length ?lines" using fs(1) by simp
    from sectionEnd_bounds [OF this, of ?L] have se: "s < ?e" by simp
    have p2: "\<forall>l \<in> set (drop ?e ?lines). \<not> isTimingHeader l"
    proof
      fix l assume "l \<in> set (drop ?e ?lines)"
      then obtain k where k: "k < length ?lines - ?e" "l = drop ?e ?lines ! k"
        by (auto simp: in_set_conv_nth)
      then have l: "l = ?lines ! (?e + k)" and lt: "?e + k < length ?lines"
        by auto
      from se have "?e + k \<noteq> s" by simp
      from unique_match [OF conjunct1 [OF a] fs(1,2) lt this] l
      show "\<not> isTimingHeader l" by simp
    qed
    from a have body: "\<forall>l \<in> set (tl (split_lines (generateTimingContent st rd
        (extractReflectionContent (content (findTimingSection txt))) ?L))). \<not> isTimingHeader l"
      unfolding w by simp
    have "exists (findTimingSection ?out)
        \<and> startLine (findTimingSection ?out) = int (length (take s ?lines))
        \<and> headerLevel (findTimingSection ?out) = ?L
        \<and> hd (split_lines (generateTimingContent st rd
             (extractReflectionContent (content (findTimingSection txt))) ?L)) = headerLine ?L
        \<and> length (filter isTimingHeader (split_lines ?out)) = 1"
      by (rule located_written [OF lines_out [unfolded w] L p1 p2 body])
    with lines_out p1 p2 fs(1) show ?thesis
      unfolding w
      by (intro exI [of _ "take s ?lines"] exI [of _ "drop ?e ?lines"])
        (auto simp: hashes_headerLine)
  qed
next
  assume ex: "exists (findTimingSection doc)"
  then obtain s where s: "firstIndex isTimingHeader (split_lines doc) = Some s"
    by (rule found_index)
  from firstIndex_Some [OF s] have fs: "s < length (split_lines doc)"
    "isTimingHeader (split_lines doc ! s)"
    "\<forall>j < s. \<not> isTimingHeader (split_lines doc ! j)" by auto
  from isTimingHeader_hashes [OF fs(2)] fs
  show "let i = nat (startLine (findTimingSection doc))
         in i < length (split_lines doc) \<and> isTimingHeader (split_lines doc ! i)
            \<and> (\<forall>j < i. \<not> isTimingHeader (split_lines doc ! j))
            \<and> headerLevel (findTimingSection doc) = hashes (split_lines doc ! i)
            \<and> 1 \<le> headerLevel (findTimingSection doc)
            \<and> headerLevel (findTimingSection doc) \<le> 6"
    by (simp add: findTimingSection_found [OF s] Let_def)
qed


text \<open>
  Claim C3, as stated, fails. The note below has one line matching the title. Its
  reflection text starts with white space followed by \<open># Timing Tracking\<close>; \<open>trim\<close>
  removes the white space, and the regenerated section holds that text as a line of
  its own. The result has two matching lines, and the section found in it ends before
  the second: it is not the section just written.
\<close>

theorem trimmed_reflection_becomes_header:
  "length (filter isTimingHeader
      (split_lines ''## Timing Tracking\<newline>### Reflection\<newline> # Timing Tracking'')) = 1
   \<and> updateTimingSection bottomWithReflection emptyDay
         ''## Timing Tracking\<newline>### Reflection\<newline> # Timing Tracking'' =
       ''## Timing Tracking\<newline>\<newline>### Summary\<newline>\<newline>- **Total tracked time**: 0s\<newline>\<newline>### By Application\<newline>\<newline>*No application data available*\<newline>\<newline>### Reflection\<newline>\<newline># Timing Tracking\<newline>\<newline>''
   \<and> length (filter isTimingHeader
         (split_lines (updateTimingSection bottomWithReflection emptyDay
            ''## Timing Tracking\<newline>### Reflection\<newline> # Timing Tracking''))) = 2
   \<and> content (findTimingSection (updateTimingSection bottomWithReflection emptyDay
         ''## Timing Tracking\<newline>### Reflection\<newline> # Timing Tracking'')) =
       ''## Timing Tracking\<newline>\<newline>### Summary\<newline>\<newline>- **Total tracked time**: 0s\<newline>\<newline>### By Application\<newline>\<newline>*No application data available*\<newline>\<newline>### Reflection\<newline>''"
  by code_simp

theorem single_section_witness:
  "((length (filter isTimingHeader (split_lines ''# Title\<newline>notes'')) \<le> 1
    \<and> list_all (\<lambda>l. \<not> isTimingHeader l) (tl (split_lines (writtenSection topNoReflection emptyDay ''# Title\<newline>notes''))))
    \<and> (\<exists>pre post.
          split_lines (updateTimingSection topNoReflection emptyDay ''# Title\<newline>notes'') =
            pre @ split_lines (writtenSection topNoReflection emptyDay ''# Title\<newline>notes'') @ post
          \<and> (\<forall>l \<in> set pre \<union> set post. \<not> isTimingHeader l)
          \<and> exists (findTimingSection (updateTimingSection topNoReflection emptyDay ''# Title\<newline>notes''))
          \<and> startLine (findTimingSection (updateTimingSection topNoReflection emptyDay ''# Title\<newline>notes'')) = int (length pre)
          \<and> headerLevel (findTimingSection (updateTimingSection topNoReflection emptyDay ''# Title\<newline>notes'')) =
              hashes (hd (split_lines (writtenSection topNoReflection emptyDay ''# Title\<newline>notes'')))
          \<and> length (filter isTimingHeader (split_lines (updateTimingSection topNoReflection emptyDay ''# Title\<newline>notes''))) = 1))
   \<and> ((length (filter isTimingHeader (split_lines ''## Timing Tracking\<newline>old\<newline>## Next'')) \<le> 1
    \<and> list_all (\<lambda>l. \<not> isTimingHeader l) (tl (split_lines (writtenSection bottomWithReflection emptyDay ''## Timing Tracking\<newline>old\<newline>## Next''))))
    \<and> (\<exists>pre post.
          split_lines (updateTimingSection bottomWithReflection emptyDay ''## Timing Tracking\<newline>old\<newline>## Next'') =
            pre @ split_lines (writtenSection bottomWithReflection emptyDay ''## Timing Tracking\<newline>old\<newline>## Next'') @ post
          \<and> (\<forall>l \<in> set pre \<union> set post. \<not> isTimingHeader l)
          \<and> exists (findTimingSection (updateTimingSection bottomWithReflection emptyDay ''## Timing Tracking\<newline>old\<newline>## Next''))
          \<and> startLine (findTimingSection (updateTimingSection bottomWithReflection emptyDay ''## Timing Tracking\<newline>old\<newline>## Next'')) = int (length pre)
          \<and> headerLevel (findTimingSection (updateTimingSection bottomWithReflection emptyDay ''## Timing Tracking\<newline>old\<newline>## Next'')) =
              hashes (hd (split_lines (writtenSection bottomWithReflection emptyDay ''## Timing Tracking\<newline>old\<newline>## Next'')))
          \<and> length (filter isTimingHeader (split_lines (updateTimingSection bottomWithReflection emptyDay ''## Timing Tracking\<newline>old\<newline>## Next''))) = 1))
   \<and> (exists (findTimingSection ''### Timing Tracking\<newline>a\<newline># Timing Tracking'')
    \<and> (let i = nat (startLine (findTimingSection ''### Timing Tracking\<newline>a\<newline># Timing Tracking''))
         in i < length (split_lines ''### Timing Tracking\<newline>a\<newline># Timing Tracking'') \<and> isTimingHeader (split_lines ''### Timing Tracking\<newline>a\<newline># Timing Tracking'' ! i)
            \<and> (\<forall>j < i. \<not> isTimingHeader (split_lines ''### Timing Tracking\<newline>a\<newline># Timing Tracking'' ! j))
            \<and> headerLevel (findTimingSection ''### Timing Tracking\<newline>a\<newline># Timing Tracking'') = hashes (split_lines ''### Timing Tracking\<newline>a\<newline># Timing Tracking'' ! i)
            \<and> 1 \<le> headerLevel (findTimingSection ''### Timing Tracking\<newline>a\<newline># Timing Tracking'')
            \<and> headerLevel (findTimingSection ''### Timing Tracking\<newline>a\<newline># Timing Tracking'') \<le> 6))"
proof -
  have h0: "length (filter isTimingHeader (split_lines ''# Title\<newline>notes'')) \<le> 1
    \<and> (\<forall>l \<in> set (tl (split_lines (writtenSection topNoReflection emptyDay ''# Title\<newline>notes''))). \<not> isTimingHeader l)"
    by code_simp
  have h0': "length (filter isTimingHeader (split_lines ''# Title\<newline>notes'')) \<le> 1
    \<and> list_all (\<lambda>l. \<not> isTimingHeader l) (tl (split_lines (writtenSection topNoReflection emptyDay ''# Title\<newline>notes'')))"
    by code_simp
  have h1: "length (filter isTimingHeader (split_lines ''## Timing Tracking\<newline>old\<newline>## Next'')) \<le> 1
    \<and> (\<forall>l \<in> set (tl (split_lines (writtenSection bottomWithReflection emptyDay ''## Timing Tracking\<newline>old\<newline>## Next''))). \<not> isTimingHeader l)"
    by code_simp
  have h1': "length (filter isTimingHeader (split_lines ''## Timing Tracking\<newline>old\<newline>## Next'')) \<le> 1
    \<and> list_all (\<lambda>l. \<not> isTimingHeader l) (tl (split_lines (writtenSection bottomWithReflection emptyDay ''## Timing Tracking\<newline>old\<newline>## Next'')))"
    by code_simp
  have h2: "exists (findTimingSection ''### Timing Tracking\<newline>a\<newline># Timing Tracking'')"
    by code_simp
  note c0 = mp [OF conjunct1 [OF single_section] h0]
  note c1 = mp [OF conjunct1 [OF single_section] h1]
  note c2 = mp [OF conjunct2 [OF single_section] h2]
  show ?thesis
    by (rule conjI [OF conjI [OF h0' c0] conjI [OF conjI [OF h1' c1] conjI [OF h2 c2]]])
qed

end
